theory Spec2Isabelle
  imports
    Complex_Main
    "HOL-Library.Multiset"
    "HOL-Library.Sublist"
    "HOL-Library.Char_ord"
    "HOL-Library.List_Lexorder"
    "HOL-Library.Product_Lexorder"
begin

section \<open>The relational schema\<close>

text \<open>
  The data-access layer of \<^verbatim>\<open>app/lib/data.ts\<close> reads three tables:
  \<^verbatim>\<open>invoices(id, customer_id, amount, status, date)\<close>,
  \<^verbatim>\<open>customers(id, name, email, image_url)\<close> and \<^verbatim>\<open>revenue(month, revenue)\<close>.
  A table is the list of its rows in scan order. Every column is taken as \<^verbatim>\<open>NOT NULL\<close>;
  identifiers, names and statuses are text, amounts are integers in minor units, and a
  date is a calendar triple.
\<close>

datatype date = Date (year: nat) (month: nat) (day: nat)

record invoice =
  inv_id :: string
  inv_customer_id :: string
  inv_amount :: int
  inv_status :: string
  inv_date :: date

record customer =
  cust_id :: string
  cust_name :: string
  cust_email :: string
  cust_image_url :: string

record revenue_row =
  rev_month :: string
  rev_revenue :: int

record database =
  invoices :: "invoice list"
  customers :: "customer list"
  revenue :: "revenue_row list"

section \<open>What SQL does with the rows\<close>

subsection \<open>Casts to text\<close>

definition digit_char :: "nat \<Rightarrow> char" where
  "digit_char d = ''0123456789'' ! d"

function nat_text :: "nat \<Rightarrow> string" where
  "nat_text n = (if n < 10 then [digit_char n] else nat_text (n div 10) @ [digit_char (n mod 10)])"
  by pat_completeness auto
termination
  by (relation "measure (\<lambda>n. n)") auto

declare nat_text.simps [simp del]

text \<open>\<^verbatim>\<open>amount::text\<close>: the decimal digits, with a minus sign for a negative amount.\<close>

definition int_text :: "int \<Rightarrow> string" where
  "int_text i = (if i < 0 then CHR ''-'' # nat_text (nat (- i)) else nat_text (nat i))"

definition pad_left :: "nat \<Rightarrow> string \<Rightarrow> string" where
  "pad_left w s = replicate (w - length s) (CHR ''0'') @ s"

text \<open>\<^verbatim>\<open>date::text\<close> in the ISO date style: \<^verbatim>\<open>YYYY-MM-DD\<close>.\<close>

definition date_text :: "date \<Rightarrow> string" where
  "date_text d =
     pad_left 4 (nat_text (year d)) @ ''-'' @ pad_left 2 (nat_text (month d)) @ ''-'' @
     pad_left 2 (nat_text (day d))"

text \<open>The sort key of a date: year, then month, then day, compared lexicographically.\<close>

definition date_key :: "date \<Rightarrow> nat \<times> nat \<times> nat" where
  "date_key d = (year d, month d, day d)"

subsection \<open>\<^verbatim>\<open>ILIKE\<close>\<close>

text \<open>
  A \<^verbatim>\<open>LIKE\<close> pattern is read left to right: \<^verbatim>\<open>%\<close> stands for any sequence of
  characters, \<^verbatim>\<open>_\<close> for any single character, a backslash makes the character after it
  literal, and any other character stands for itself. A pattern that ends in a lone
  backslash is rejected by the database (\<open>None\<close>). \<^verbatim>\<open>ILIKE\<close> is \<^verbatim>\<open>LIKE\<close> on the
  lower-cased pattern and the lower-cased text; case folding is modelled on ASCII letters.
\<close>

datatype like_tok = AnySeq | AnyChar | Lit char

fun like_parse :: "string \<Rightarrow> like_tok list option" where
  "like_parse [] = Some []"
| "like_parse [c] =
     (if c = CHR ''%'' then Some [AnySeq]
      else if c = CHR ''_'' then Some [AnyChar]
      else if c = CHR 0x5C then None
      else Some [Lit c])"
| "like_parse (c # d # cs) =
     (if c = CHR ''%'' then map_option ((#) AnySeq) (like_parse (d # cs))
      else if c = CHR ''_'' then map_option ((#) AnyChar) (like_parse (d # cs))
      else if c = CHR 0x5C then map_option ((#) (Lit d)) (like_parse cs)
      else map_option ((#) (Lit c)) (like_parse (d # cs)))"

fun like_match :: "like_tok list \<Rightarrow> string \<Rightarrow> bool" where
  "like_match [] t = (t = [])"
| "like_match (AnySeq # ps) [] = like_match ps []"
| "like_match (AnySeq # ps) (c # cs) = (like_match ps (c # cs) \<or> like_match (AnySeq # ps) cs)"
| "like_match (AnyChar # ps) [] = False"
| "like_match (AnyChar # ps) (c # cs) = like_match ps cs"
| "like_match (Lit d # ps) [] = False"
| "like_match (Lit d # ps) (c # cs) = (c = d \<and> like_match ps cs)"

definition lower_char :: "char \<Rightarrow> char" where
  "lower_char c =
     (case map_of (zip ''ABCDEFGHIJKLMNOPQRSTUVWXYZ'' ''abcdefghijklmnopqrstuvwxyz'') c of
        Some l \<Rightarrow> l
      | None \<Rightarrow> c)"

definition lower :: "string \<Rightarrow> string" where
  "lower s = map lower_char s"

definition ilike_pattern :: "string \<Rightarrow> like_tok list option" where
  "ilike_pattern pat = like_parse (lower pat)"

definition ilike :: "string \<Rightarrow> like_tok list \<Rightarrow> bool" where
  "ilike s p = like_match p (lower s)"

subsection \<open>Joins, ordering, paging, aggregates\<close>

text \<open>\<^verbatim>\<open>FROM invoices JOIN customers ON invoices.customer_id = customers.id\<close>\<close>

definition inner_join :: "database \<Rightarrow> (invoice \<times> customer) list" where
  "inner_join d =
     concat (map (\<lambda>i. map (Pair i) (filter (\<lambda>c. inv_customer_id i = cust_id c) (customers d)))
       (invoices d))"

text \<open>
  \<^verbatim>\<open>FROM customers LEFT JOIN invoices ON customers.id = invoices.customer_id\<close>: a customer
  without invoices keeps one row whose invoice columns are all \<^verbatim>\<open>NULL\<close>.
\<close>

definition left_join :: "database \<Rightarrow> (customer \<times> invoice option) list" where
  "left_join d =
     concat (map (\<lambda>c.
         (let is = filter (\<lambda>i. cust_id c = inv_customer_id i) (invoices d)
          in if is = [] then [(c, None)] else map (\<lambda>i. (c, Some i)) is))
       (customers d))"

text \<open>
  \<^verbatim>\<open>ORDER BY\<close>. The statements order by one column only, and the database promises
  no order among rows with equal keys: the order is the executor's, and it may differ from
  one statement to the next. For the descending orders over the invoice join the
  executor's choice is the rank \<open>tie\<close>: rows of equal key come in ascending rank, and
  rows of equal key and rank in scan order. The ascending orders, which no statement
  pages, keep rows of equal key in scan order.
\<close>

definition order_by_asc :: "('a \<Rightarrow> 'k::linorder) \<Rightarrow> 'a list \<Rightarrow> 'a list" where
  "order_by_asc k xs = sort_key k xs"

definition order_by_desc :: "('a \<Rightarrow> 'k::linorder) \<Rightarrow> ('a \<Rightarrow> nat) \<Rightarrow> 'a list \<Rightarrow> 'a list" where
  "order_by_desc k tie xs = rev (sort_key k (rev (sort_key tie xs)))"

datatype db_error = ExecutionFault string | NegativeOffset | EscapeAtPatternEnd

text \<open>\<^verbatim>\<open>LIMIT l OFFSET off\<close>: the database refuses a negative offset.\<close>

definition limit_offset :: "nat \<Rightarrow> int \<Rightarrow> 'a list \<Rightarrow> db_error + 'a list" where
  "limit_offset l off xs = (if off < 0 then Inl NegativeOffset else Inr (take l (drop (nat off) xs)))"

text \<open>\<^verbatim>\<open>SUM\<close> over no rows is \<^verbatim>\<open>NULL\<close>.\<close>

definition sql_sum :: "int list \<Rightarrow> int option" where
  "sql_sum xs = (if xs = [] then None else Some (sum_list xs))"

text \<open>\<^verbatim>\<open>GROUP BY\<close>: one group per distinct key, holding the rows with that key.\<close>

definition group_by :: "('r \<Rightarrow> 'k) \<Rightarrow> 'r list \<Rightarrow> ('k \<times> 'r list) list" where
  "group_by key rows = map (\<lambda>k. (k, filter (\<lambda>r. key r = k) rows)) (remdups (map key rows))"

section \<open>The connection\<close>

text \<open>
  The file issues ten statements through the shared pool \<^verbatim>\<open>sql\<close>. A call may fault
  for reasons outside the statement (connectivity loss, a refused parameter); \<open>fault\<close>
  says which statements do and with which error. \<open>settled\<close> is the moment at which a
  statement's promise settles; \<^verbatim>\<open>Promise.all\<close> rejects with the error of the promise that
  rejected first. \<open>tie_rank st off\<close> is the rank by which the executor arranges rows of
  equal date when it runs statement \<open>st\<close> with offset \<open>off\<close>.
\<close>

datatype statement =
    SelectRevenue | SelectLatestInvoices
  | CountInvoices | CountCustomers | SumTotals
  | SelectFilteredInvoices | CountFilteredInvoices
  | SelectInvoiceById | SelectCustomers | SelectFilteredCustomers

record connection =
  db :: database
  fault :: "statement \<Rightarrow> db_error option"
  settled :: "statement \<Rightarrow> nat"
  tie_rank :: "statement \<Rightarrow> int \<Rightarrow> invoice \<times> customer \<Rightarrow> nat"

definition sql :: "connection \<Rightarrow> statement \<Rightarrow> (db_error + 'a) \<Rightarrow> db_error + 'a" where
  "sql conn st r = (case fault conn st of Some e \<Rightarrow> Inl e | None \<Rightarrow> r)"

text \<open>What \<^verbatim>\<open>console.error\<close> has printed: the message and the error object.\<close>

type_synonym console = "(string \<times> db_error) list"

section \<open>The query service\<close>

text \<open>
  Each operation returns what it printed on the console together with its value.
  \<open>formatCurrency\<close> is the display formatter of \<^verbatim>\<open>app/lib/utils\<close>; the operations
  take it as a parameter. Its argument is a number or \<^verbatim>\<open>null\<close>.
\<close>

subsection \<open>fetchRevenue\<close>

definition select_revenue :: "database \<Rightarrow> db_error + revenue_row list" where
  "select_revenue d = Inr (order_by_asc rev_month (revenue d))"

definition fetchRevenue :: "connection \<Rightarrow> console \<times> revenue_row list" where
  "fetchRevenue conn =
     (case sql conn SelectRevenue (select_revenue (db conn)) of
        Inr data \<Rightarrow> ([], data)
      | Inl error \<Rightarrow> ([(''Database Error (fetchRevenue):'', error)], []))"

subsection \<open>fetchLatestInvoices\<close>

record latest_invoice_raw =
  lr_amount :: int
  lr_name :: string
  lr_image_url :: string
  lr_email :: string
  lr_id :: string

record latest_invoice =
  li_amount :: string
  li_name :: string
  li_image_url :: string
  li_email :: string
  li_id :: string

definition latest_invoice_row :: "invoice \<times> customer \<Rightarrow> latest_invoice_raw" where
  "latest_invoice_row r =
     \<lparr>lr_amount = inv_amount (fst r), lr_name = cust_name (snd r),
      lr_image_url = cust_image_url (snd r), lr_email = cust_email (snd r),
      lr_id = inv_id (fst r)\<rparr>"

definition select_latest_invoices ::
    "database \<Rightarrow> (invoice \<times> customer \<Rightarrow> nat) \<Rightarrow> db_error + latest_invoice_raw list" where
  "select_latest_invoices d tie =
     Inr (map latest_invoice_row
       (take 5 (order_by_desc (\<lambda>r. date_key (inv_date (fst r))) tie (inner_join d))))"

definition fetchLatestInvoices ::
    "(int option \<Rightarrow> string) \<Rightarrow> connection \<Rightarrow> console \<times> latest_invoice list" where
  "fetchLatestInvoices formatCurrency conn =
     (case sql conn SelectLatestInvoices
             (select_latest_invoices (db conn) (tie_rank conn SelectLatestInvoices 0)) of
        Inr rows \<Rightarrow>
          ([], map (\<lambda>invoice.
                 \<lparr>li_amount = formatCurrency (Some (lr_amount invoice)),
                  li_name = lr_name invoice, li_image_url = lr_image_url invoice,
                  li_email = lr_email invoice, li_id = lr_id invoice\<rparr>) rows)
      | Inl error \<Rightarrow> ([(''Database Error (fetchLatestInvoices):'', error)], []))"

subsection \<open>fetchCardData\<close>

record card_summary =
  numberOfInvoices :: nat
  numberOfCustomers :: nat
  totalPaidInvoices :: string
  totalPendingInvoices :: string

definition count_invoices :: "database \<Rightarrow> db_error + nat" where
  "count_invoices d = Inr (length (invoices d))"

definition count_customers :: "database \<Rightarrow> db_error + nat" where
  "count_customers d = Inr (length (customers d))"

text \<open>The one row of the totals statement: the columns \<^verbatim>\<open>paid\<close> and \<^verbatim>\<open>pending\<close>.\<close>

definition sum_totals :: "database \<Rightarrow> db_error + (int option \<times> int option)" where
  "sum_totals d =
     Inr (sql_sum (map (\<lambda>i. if inv_status i = ''paid'' then inv_amount i else 0) (invoices d)),
          sql_sum (map (\<lambda>i. if inv_status i = ''pending'' then inv_amount i else 0) (invoices d)))"

definition rejection :: "statement \<Rightarrow> (db_error + 'a) \<Rightarrow> (statement \<times> db_error) list" where
  "rejection st r = (case r of Inl e \<Rightarrow> [(st, e)] | Inr _ \<Rightarrow> [])"

fun first_rejected :: "connection \<Rightarrow> statement \<times> db_error \<Rightarrow> (statement \<times> db_error) list \<Rightarrow> db_error" where
  "first_rejected conn x [] = snd x"
| "first_rejected conn x (y # ys) =
     first_rejected conn (if settled conn (fst y) < settled conn (fst x) then y else x) ys"

text \<open>The peso sign is the three bytes E2 82 B1 of its UTF-8 encoding.\<close>

definition peso_zero :: string where
  "peso_zero = [CHR 0xE2, CHR 0x82, CHR 0xB1, CHR ''0'']"

definition card_default :: card_summary where
  "card_default =
     \<lparr>numberOfInvoices = 0, numberOfCustomers = 0,
      totalPaidInvoices = peso_zero, totalPendingInvoices = peso_zero\<rparr>"

definition nullish :: "'a option \<Rightarrow> 'a \<Rightarrow> 'a" where
  "nullish v dflt = (case v of Some x \<Rightarrow> x | None \<Rightarrow> dflt)"

definition fetchCardData :: "(int option \<Rightarrow> string) \<Rightarrow> connection \<Rightarrow> console \<times> card_summary" where
  "fetchCardData formatCurrency conn =
     (let r1 = sql conn CountInvoices (count_invoices (db conn));
          r2 = sql conn CountCustomers (count_customers (db conn));
          r3 = sql conn SumTotals (sum_totals (db conn))
      in case (r1, r2, r3) of
           (Inr invoiceCount, Inr customerCount, Inr totals) \<Rightarrow>
             ([], \<lparr>numberOfInvoices = invoiceCount,
                   numberOfCustomers = customerCount,
                   totalPaidInvoices = formatCurrency (Some (nullish (fst totals) 0)),
                   totalPendingInvoices = formatCurrency (Some (nullish (snd totals) 0))\<rparr>)
         | _ \<Rightarrow>
             (case rejection CountInvoices r1 @ rejection CountCustomers r2 @ rejection SumTotals r3 of
                x # xs \<Rightarrow> ([(''Database Error (fetchCardData):'', first_rejected conn x xs)], card_default)
              | [] \<Rightarrow> ([], card_default)))"

subsection \<open>fetchFilteredInvoices and fetchInvoicesPages\<close>

definition ITEMS_PER_PAGE :: nat where
  "ITEMS_PER_PAGE = 6"

text \<open>The pattern parameter \<^verbatim>\<open>`%${query}%`\<close> of every search statement.\<close>

definition search_pattern :: "string \<Rightarrow> string" where
  "search_pattern query = CHR ''%'' # query @ ''%''"

record invoices_table =
  it_id :: string
  it_amount :: int
  it_date :: date
  it_status :: string
  it_name :: string
  it_email :: string
  it_image_url :: string

definition invoices_table_row :: "invoice \<times> customer \<Rightarrow> invoices_table" where
  "invoices_table_row r =
     \<lparr>it_id = inv_id (fst r), it_amount = inv_amount (fst r), it_date = inv_date (fst r),
      it_status = inv_status (fst r), it_name = cust_name (snd r), it_email = cust_email (snd r),
      it_image_url = cust_image_url (snd r)\<rparr>"

text \<open>The \<^verbatim>\<open>WHERE\<close> clause of the page statement (lines 100 to 105).\<close>

definition filtered_invoices_where :: "like_tok list \<Rightarrow> invoice \<times> customer \<Rightarrow> bool" where
  "filtered_invoices_where p r =
     (ilike (cust_name (snd r)) p \<or>
      ilike (cust_email (snd r)) p \<or>
      ilike (int_text (inv_amount (fst r))) p \<or>
      ilike (date_text (inv_date (fst r))) p \<or>
      ilike (inv_status (fst r)) p)"

definition select_filtered_invoices ::
    "database \<Rightarrow> (invoice \<times> customer \<Rightarrow> nat) \<Rightarrow> string \<Rightarrow> nat \<Rightarrow> int \<Rightarrow>
     db_error + invoices_table list" where
  "select_filtered_invoices d tie pat l off =
     (case ilike_pattern pat of
        None \<Rightarrow> Inl EscapeAtPatternEnd
      | Some p \<Rightarrow>
          limit_offset l off
            (map invoices_table_row
              (order_by_desc (\<lambda>r. date_key (inv_date (fst r))) tie
                (filter (filtered_invoices_where p) (inner_join d)))))"

definition fetchFilteredInvoices :: "connection \<Rightarrow> string \<Rightarrow> int \<Rightarrow> console \<times> invoices_table list" where
  "fetchFilteredInvoices conn query currentPage =
     (let offset = (currentPage - 1) * int ITEMS_PER_PAGE
      in case sql conn SelectFilteredInvoices
                (select_filtered_invoices (db conn) (tie_rank conn SelectFilteredInvoices offset)
                   (search_pattern query) ITEMS_PER_PAGE offset) of
           Inr rows \<Rightarrow> ([], rows)
         | Inl error \<Rightarrow> ([(''Database Error (fetchFilteredInvoices):'', error)], []))"

text \<open>The \<^verbatim>\<open>WHERE\<close> clause of the count statement (lines 122 to 127).\<close>

definition invoices_pages_where :: "like_tok list \<Rightarrow> invoice \<times> customer \<Rightarrow> bool" where
  "invoices_pages_where p r =
     (ilike (cust_name (snd r)) p \<or>
      ilike (cust_email (snd r)) p \<or>
      ilike (int_text (inv_amount (fst r))) p \<or>
      ilike (date_text (inv_date (fst r))) p \<or>
      ilike (inv_status (fst r)) p)"

definition count_filtered_invoices :: "database \<Rightarrow> string \<Rightarrow> db_error + nat" where
  "count_filtered_invoices d pat =
     (case ilike_pattern pat of
        None \<Rightarrow> Inl EscapeAtPatternEnd
      | Some p \<Rightarrow> Inr (length (filter (invoices_pages_where p) (inner_join d))))"

text \<open>
  \<^verbatim>\<open>Math.ceil(Number(data[0].count) / ITEMS_PER_PAGE)\<close>: the quotient is taken exactly,
  which the floating-point quotient agrees with on every count a table can have.
\<close>

definition fetchInvoicesPages :: "connection \<Rightarrow> string \<Rightarrow> console \<times> int" where
  "fetchInvoicesPages conn query =
     (case sql conn CountFilteredInvoices (count_filtered_invoices (db conn) (search_pattern query)) of
        Inr matchCount \<Rightarrow> ([], \<lceil>(of_nat matchCount :: rat) / of_nat ITEMS_PER_PAGE\<rceil>)
      | Inl error \<Rightarrow> ([(''Database Error (fetchInvoicesPages):'', error)], 1))"

subsection \<open>fetchInvoiceById\<close>

record invoice_form_row =
  fr_id :: string
  fr_customer_id :: string
  fr_amount :: int
  fr_status :: string

record invoice_form =
  form_id :: string
  form_customer_id :: string
  form_amount :: rat
  form_status :: string

definition invoice_form_of :: "invoice \<Rightarrow> invoice_form_row" where
  "invoice_form_of i =
     \<lparr>fr_id = inv_id i, fr_customer_id = inv_customer_id i, fr_amount = inv_amount i,
      fr_status = inv_status i\<rparr>"

definition select_invoice_by_id :: "database \<Rightarrow> string \<Rightarrow> db_error + invoice_form_row list" where
  "select_invoice_by_id d ident = Inr (map invoice_form_of (filter (\<lambda>i. inv_id i = ident) (invoices d)))"

text \<open>
  \<^verbatim>\<open>rows[0].amount / 100\<close> is the quotient of two numbers, not an integer division;
  the model keeps it as a rational.
\<close>

definition fetchInvoiceById :: "connection \<Rightarrow> string \<Rightarrow> console \<times> invoice_form option" where
  "fetchInvoiceById conn ident =
     (case sql conn SelectInvoiceById (select_invoice_by_id (db conn) ident) of
        Inr rows \<Rightarrow>
          (case rows of
             [] \<Rightarrow> ([], None)
           | row # _ \<Rightarrow>
               ([], Some \<lparr>form_id = fr_id row, form_customer_id = fr_customer_id row,
                          form_amount = of_int (fr_amount row) / 100,
                          form_status = fr_status row\<rparr>))
      | Inl error \<Rightarrow> ([(''Database Error (fetchInvoiceById):'', error)], None))"

subsection \<open>fetchCustomers\<close>

record customer_field =
  cf_id :: string
  cf_name :: string

definition select_customers :: "database \<Rightarrow> db_error + customer_field list" where
  "select_customers d =
     Inr (map (\<lambda>c. \<lparr>cf_id = cust_id c, cf_name = cust_name c\<rparr>) (order_by_asc cust_name (customers d)))"

definition fetchCustomers :: "connection \<Rightarrow> console \<times> customer_field list" where
  "fetchCustomers conn =
     (case sql conn SelectCustomers (select_customers (db conn)) of
        Inr rows \<Rightarrow> ([], rows)
      | Inl error \<Rightarrow> ([(''Database Error (fetchCustomers):'', error)], []))"

subsection \<open>fetchFilteredCustomers\<close>

record customers_table_raw =
  cr_id :: string
  cr_name :: string
  cr_email :: string
  cr_image_url :: string
  cr_total_invoices :: nat
  cr_total_pending :: "int option"
  cr_total_paid :: "int option"

record customers_table =
  ct_id :: string
  ct_name :: string
  ct_email :: string
  ct_image_url :: string
  ct_total_invoices :: nat
  ct_total_pending :: string
  ct_total_paid :: string

text \<open>The \<^verbatim>\<open>WHERE\<close> clause of the customer search (lines 183 to 185).\<close>

definition filtered_customers_where :: "like_tok list \<Rightarrow> customer \<times> invoice option \<Rightarrow> bool" where
  "filtered_customers_where p r =
     (ilike (cust_name (fst r)) p \<or>
      ilike (cust_email (fst r)) p)"

text \<open>
  \<^verbatim>\<open>CASE WHEN invoices.status = s THEN invoices.amount ELSE 0 END\<close> on a row of the left
  join: on the \<^verbatim>\<open>NULL\<close> invoice the comparison is not true, so the value is 0.
\<close>

definition amount_if_status :: "string \<Rightarrow> customer \<times> invoice option \<Rightarrow> int" where
  "amount_if_status s r =
     (case snd r of
        Some i \<Rightarrow> if inv_status i = s then inv_amount i else 0
      | None \<Rightarrow> 0)"

text \<open>
  The select list over one group. The group key is the four customer columns, that is
  the customer row itself; \<^verbatim>\<open>COUNT(invoices.id)\<close> counts the rows whose invoice is not
  \<^verbatim>\<open>NULL\<close>.
\<close>

definition customers_table_row :: "customer \<times> (customer \<times> invoice option) list \<Rightarrow> customers_table_raw" where
  "customers_table_row g =
     \<lparr>cr_id = cust_id (fst g), cr_name = cust_name (fst g), cr_email = cust_email (fst g),
      cr_image_url = cust_image_url (fst g),
      cr_total_invoices = length (filter (\<lambda>r. snd r \<noteq> None) (snd g)),
      cr_total_pending = sql_sum (map (amount_if_status ''pending'') (snd g)),
      cr_total_paid = sql_sum (map (amount_if_status ''paid'') (snd g))\<rparr>"

definition select_filtered_customers :: "database \<Rightarrow> string \<Rightarrow> db_error + customers_table_raw list" where
  "select_filtered_customers d pat =
     (case ilike_pattern pat of
        None \<Rightarrow> Inl EscapeAtPatternEnd
      | Some p \<Rightarrow>
          Inr (order_by_asc cr_name
                (map customers_table_row
                  (group_by fst (filter (filtered_customers_where p) (left_join d))))))"

definition fetchFilteredCustomers ::
    "(int option \<Rightarrow> string) \<Rightarrow> connection \<Rightarrow> string \<Rightarrow> console \<times> customers_table list" where
  "fetchFilteredCustomers formatCurrency conn query =
     (case sql conn SelectFilteredCustomers (select_filtered_customers (db conn) (search_pattern query)) of
        Inr rows \<Rightarrow>
          ([], map (\<lambda>customer.
                 \<lparr>ct_id = cr_id customer, ct_name = cr_name customer, ct_email = cr_email customer,
                  ct_image_url = cr_image_url customer,
                  ct_total_invoices = cr_total_invoices customer,
                  ct_total_pending = formatCurrency (cr_total_pending customer),
                  ct_total_paid = formatCurrency (cr_total_paid customer)\<rparr>) rows)
      | Inl error \<Rightarrow> ([(''Database Error (fetchFilteredCustomers):'', error)], []))"

section \<open>Vocabulary of the properties\<close>

text \<open>
  A joined invoice row matches a query when the \<^verbatim>\<open>WHERE\<close> clause of the page statement
  accepts it under the pattern built from the query; likewise for a customer and the
  \<^verbatim>\<open>WHERE\<close> clause of the customer search.
\<close>

definition invoice_matches :: "string \<Rightarrow> invoice \<times> customer \<Rightarrow> bool" where
  "invoice_matches query r =
     (case ilike_pattern (search_pattern query) of
        None \<Rightarrow> False
      | Some p \<Rightarrow> filtered_invoices_where p r)"

definition customer_matches :: "string \<Rightarrow> customer \<Rightarrow> bool" where
  "customer_matches query c =
     (case ilike_pattern (search_pattern query) of
        None \<Rightarrow> False
      | Some p \<Rightarrow> filtered_customers_where p (c, None))"

text \<open>A joined row is counted when the \<^verbatim>\<open>WHERE\<close> clause of the count statement accepts it.\<close>

definition counted_by_pages :: "string \<Rightarrow> invoice \<times> customer \<Rightarrow> bool" where
  "counted_by_pages query r =
     (case ilike_pattern (search_pattern query) of
        None \<Rightarrow> False
      | Some p \<Rightarrow> invoices_pages_where p r)"

text \<open>
  All rows of a search in the order of a page statement whose executor ranks equal dates by
  \<open>tie\<close>, before \<^verbatim>\<open>LIMIT\<close> and \<^verbatim>\<open>OFFSET\<close> cut a page out of them.
\<close>

definition matching_rows ::
    "database \<Rightarrow> (invoice \<times> customer \<Rightarrow> nat) \<Rightarrow> string \<Rightarrow> invoices_table list" where
  "matching_rows d tie query =
     map invoices_table_row
       (order_by_desc (\<lambda>r. date_key (inv_date (fst r))) tie
          (filter (invoice_matches query) (inner_join d)))"

text \<open>
  The specification's reading of the search: the query occurs in the text as a contiguous
  run of characters, letter case ignored.
\<close>

definition ci_substring :: "string \<Rightarrow> string \<Rightarrow> bool" where
  "ci_substring query s = sublist (lower query) (lower s)"

text \<open>A query without the characters that \<^verbatim>\<open>LIKE\<close> reads specially.\<close>

definition wildcard_free :: "string \<Rightarrow> bool" where
  "wildcard_free query = list_all (\<lambda>c. c \<noteq> CHR ''%'' \<and> c \<noteq> CHR ''_'' \<and> c \<noteq> CHR 0x5C) query"

text \<open>Rows in descending order of date.\<close>

definition date_descending :: "invoices_table list \<Rightarrow> bool" where
  "date_descending rows = sorted_wrt (\<lambda>a b. date_key (it_date b) \<le> date_key (it_date a)) rows"

text \<open>The customer columns of a row of the customer search.\<close>

definition shown_customer :: "customers_table \<Rightarrow> customer" where
  "shown_customer row =
     \<lparr>cust_id = ct_id row, cust_name = ct_name row, cust_email = ct_email row,
      cust_image_url = ct_image_url row\<rparr>"

text \<open>
  The rows of the left join that the customer search keeps, and the line that the search
  computes for one customer from the rows of that customer's group.
\<close>

definition customer_rows :: "database \<Rightarrow> string \<Rightarrow> (customer \<times> invoice option) list" where
  "customer_rows d query = filter (\<lambda>r. customer_matches query (fst r)) (left_join d)"

definition customer_line ::
    "(int option \<Rightarrow> string) \<Rightarrow> database \<Rightarrow> string \<Rightarrow> customer \<Rightarrow> customers_table" where
  "customer_line fmt d query c =
     (let g = filter (\<lambda>r. fst r = c) (customer_rows d query)
      in \<lparr>ct_id = cust_id c, ct_name = cust_name c, ct_email = cust_email c,
          ct_image_url = cust_image_url c,
          ct_total_invoices = length (filter (\<lambda>r. snd r \<noteq> None) g),
          ct_total_pending = fmt (sql_sum (map (amount_if_status ''pending'') g)),
          ct_total_paid = fmt (sql_sum (map (amount_if_status ''paid'') g))\<rparr>)"

section \<open>Example data\<close>

text \<open>
  Modelled from the spec: \<^verbatim>\<open>formatCurrency\<close> of \<^verbatim>\<open>app/lib/utils\<close> is not among the
  sources. The specification describes it by one example, minor-unit integer 150000 gives
  the peso sign followed by \<^verbatim>\<open>1,500.00\<close>, and by the rule that \<^verbatim>\<open>null\<close> is formatted as
  zero. It is used below only to run the operations on examples.
\<close>

fun group_thousands_rev :: "string \<Rightarrow> string" where
  "group_thousands_rev (a # b # c # d # ds) = a # b # c # CHR '','' # group_thousands_rev (d # ds)"
| "group_thousands_rev ds = ds"

definition formatCurrency :: "int option \<Rightarrow> string" where
  "formatCurrency amount =
     (let v = nullish amount 0; a = nat \<bar>v\<bar>
      in (if v < 0 then ''-'' else []) @ [CHR 0xE2, CHR 0x82, CHR 0xB1] @
         rev (group_thousands_rev (rev (nat_text (a div 100)))) @ ''.'' @
         pad_left 2 (nat_text (a mod 100)))"

text \<open>
  A connection on which every statement runs, and one on which none does. Both emit rows
  of equal date in scan order.
\<close>

definition healthy :: "database \<Rightarrow> connection" where
  "healthy d =
     \<lparr>db = d, fault = (\<lambda>st. None), settled = (\<lambda>st. 0), tie_rank = (\<lambda>st off r. 0)\<rparr>"

definition unreachable :: "database \<Rightarrow> connection" where
  "unreachable d =
     \<lparr>db = d, fault = (\<lambda>st. Some (ExecutionFault ''connect ECONNREFUSED'')), settled = (\<lambda>st. 0),
      tie_rank = (\<lambda>st off r. 0)\<rparr>"

text \<open>
  A connection on which every statement runs and whose executor emits rows of equal date
  in scan order at offset 0 and by ascending amount at every other offset.
\<close>

definition reshuffling :: "database \<Rightarrow> connection" where
  "reshuffling d =
     \<lparr>db = d, fault = (\<lambda>st. None), settled = (\<lambda>st. 0),
      tie_rank = (\<lambda>st off r. if off = 0 then 0 else nat (inv_amount (fst r)))\<rparr>"

definition amy :: customer where
  "amy = \<lparr>cust_id = ''c1'', cust_name = ''Amy Burns'', cust_email = ''amy@burns.com'',
           cust_image_url = ''/customers/amy-burns.png''\<rparr>"

definition lee :: customer where
  "lee = \<lparr>cust_id = ''c2'', cust_name = ''Lee Robinson'', cust_email = ''lee@robinson.com'',
           cust_image_url = ''/customers/lee-robinson.png''\<rparr>"

definition invoice1 :: invoice where
  "invoice1 = \<lparr>inv_id = ''i1'', inv_customer_id = ''c1'', inv_amount = 100000,
                inv_status = ''pending'', inv_date = Date 2023 6 9\<rparr>"

text \<open>One invoice, of Amy Burns; Lee Robinson has none.\<close>

definition small_db :: database where
  "small_db = \<lparr>invoices = [invoice1], customers = [amy, lee], revenue = []\<rparr>"

text \<open>Seven invoices of Lee Robinson, dated 1 to 7 June 2023, scanned out of date order.\<close>

definition june_invoice :: "nat \<Rightarrow> invoice" where
  "june_invoice n =
     \<lparr>inv_id = ''i'' @ nat_text n, inv_customer_id = ''c2'', inv_amount = 1500 * int n,
      inv_status = ''paid'', inv_date = Date 2023 6 n\<rparr>"

definition busy_db :: database where
  "busy_db = \<lparr>invoices = map june_invoice [3, 1, 7, 5, 2, 6, 4], customers = [amy, lee], revenue = []\<rparr>"

text \<open>Seven invoices of Lee Robinson, all dated 1 June 2023, of descending amount.\<close>

definition tied_invoice :: "nat \<Rightarrow> invoice" where
  "tied_invoice n =
     \<lparr>inv_id = ''t'' @ nat_text n, inv_customer_id = ''c2'', inv_amount = 1000 * (8 - int n),
      inv_status = ''paid'', inv_date = Date 2023 6 1\<rparr>"

definition tied_db :: database where
  "tied_db = \<lparr>invoices = map tied_invoice [1, 2, 3, 4, 5, 6, 7], customers = [amy, lee], revenue = []\<rparr>"

text \<open>The two customers before any invoice is written.\<close>

definition no_invoices_db :: database where
  "no_invoices_db = \<lparr>invoices = [], customers = [amy, lee], revenue = []\<rparr>"

section \<open>Facts about the SQL operators\<close>

lemmas example_data = healthy_def unreachable_def amy_def lee_def invoice1_def small_db_def
  june_invoice_def busy_db_def no_invoices_db_def reshuffling_def tied_invoice_def tied_db_def

lemmas text_casts = int_text_def date_text_def pad_left_def nat_text.simps digit_char_def

lemmas search_eval = search_pattern_def ilike_pattern_def lower_def lower_char_def ilike_def

subsection \<open>Patterns\<close>

lemma like_parse_percent_end: "\<exists>p. like_parse (s @ ''%'') = Some p"
  by (induction s rule: like_parse.induct) auto

lemma like_parse_percent_first:
  "y \<noteq> [] \<Longrightarrow> like_parse (CHR ''%'' # y) = map_option ((#) AnySeq) (like_parse y)"
  by (cases y) simp_all

lemma lower_char_special:
  "lower_char c = CHR ''%'' \<longleftrightarrow> c = CHR ''%''"
  "lower_char c = CHR ''_'' \<longleftrightarrow> c = CHR ''_''"
  "lower_char c = CHR 0x5C \<longleftrightarrow> c = CHR 0x5C"
  by (auto simp: lower_char_def split: if_splits)

lemma lower_search_pattern: "lower (search_pattern q) = CHR ''%'' # lower q @ ''%''"
  by (simp add: lower_def search_pattern_def lower_char_def)

text \<open>The pattern of a search statement is never rejected.\<close>

lemma search_pattern_parses:
  "\<exists>p. like_parse (lower q @ ''%'') = Some p \<and> ilike_pattern (search_pattern q) = Some (AnySeq # p)"
proof -
  obtain p where "like_parse (lower q @ ''%'') = Some p"
    using like_parse_percent_end by blast
  then show ?thesis
    by (simp add: ilike_pattern_def lower_search_pattern like_parse_percent_first)
qed

lemma like_match_AnySeq_only: "like_match [AnySeq] t"
  by (induction t) auto

lemma like_match_AnySeq:
  "like_match (AnySeq # ps) t \<longleftrightarrow> (\<exists>pre post. t = pre @ post \<and> like_match ps post)"
proof (induction t)
  case Nil
  then show ?case by simp
next
  case (Cons c cs)
  show ?case
  proof
    assume "like_match (AnySeq # ps) (c # cs)"
    then consider "like_match ps (c # cs)" | "like_match (AnySeq # ps) cs" by auto
    then show "\<exists>pre post. c # cs = pre @ post \<and> like_match ps post"
    proof cases
      case 1
      then show ?thesis by (intro exI[of _ "[]"] exI[of _ "c # cs"]) simp
    next
      case 2
      with Cons.IH obtain pre post where "cs = pre @ post" "like_match ps post" by blast
      then show ?thesis by (intro exI[of _ "c # pre"] exI[of _ post]) simp
    qed
  next
    assume "\<exists>pre post. c # cs = pre @ post \<and> like_match ps post"
    then obtain pre post where h: "c # cs = pre @ post" "like_match ps post" by blast
    show "like_match (AnySeq # ps) (c # cs)"
    proof (cases pre)
      case Nil
      with h have "like_match ps (c # cs)" by simp
      then show ?thesis by simp
    next
      case (Cons a pre')
      with h have "cs = pre' @ post" by simp
      with h(2) Cons.IH have "like_match (AnySeq # ps) cs" by blast
      then show ?thesis by simp
    qed
  qed
qed

lemma like_match_Lits:
  "like_match (map Lit x @ ps) t \<longleftrightarrow> (\<exists>post. t = x @ post \<and> like_match ps post)"
proof (induction x arbitrary: t)
  case Nil
  then show ?case by simp
next
  case (Cons a x)
  then show ?case by (cases t) auto
qed

text \<open>Between two \<^verbatim>\<open>%\<close>, a run of literal characters is a substring search.\<close>

lemma like_match_infix: "like_match (AnySeq # map Lit x @ [AnySeq]) t \<longleftrightarrow> sublist x t"
  by (auto simp: like_match_AnySeq like_match_Lits like_match_AnySeq_only sublist_def)

lemma like_parse_plain:
  "wildcard_free x \<Longrightarrow> like_parse (x @ ''%'') = Some (map Lit x @ [AnySeq])"
  unfolding wildcard_free_def
  by (induction x rule: like_parse.induct) auto

lemma wildcard_free_lower: "wildcard_free q \<Longrightarrow> wildcard_free (lower q)"
  by (induction q) (simp_all add: wildcard_free_def lower_def lower_char_special)

lemma wildcard_free_pattern:
  assumes "wildcard_free q"
  shows "ilike_pattern (search_pattern q) = Some (AnySeq # map Lit (lower q) @ [AnySeq])"
proof -
  have "like_parse (lower q @ ''%'') = Some (map Lit (lower q) @ [AnySeq])"
    using assms by (intro like_parse_plain wildcard_free_lower)
  then show ?thesis
    by (simp add: ilike_pattern_def lower_search_pattern like_parse_percent_first)
qed

lemma ilike_plain: "ilike s (AnySeq # map Lit (lower q) @ [AnySeq]) \<longleftrightarrow> ci_substring q s"
  by (simp add: ilike_def ci_substring_def like_match_infix)

lemma empty_pattern: "ilike_pattern (search_pattern []) = Some [AnySeq, AnySeq]"
  by (simp add: search_eval)

lemma like_match_two_AnySeq: "like_match [AnySeq, AnySeq] t"
  by (induction t) auto

lemma ilike_everything: "ilike s [AnySeq, AnySeq]"
  by (simp add: ilike_def like_match_two_AnySeq)

text \<open>The two \<^verbatim>\<open>WHERE\<close> clauses over the invoice join are the same predicate.\<close>

lemma where_clauses_agree: "invoices_pages_where p r = filtered_invoices_where p r"
  by (simp add: invoices_pages_where_def filtered_invoices_where_def)

lemma count_statement:
  "\<exists>p. ilike_pattern (search_pattern q) = Some p \<and>
     count_filtered_invoices d (search_pattern q) =
       Inr (length (filter (invoice_matches q) (inner_join d)))"
proof -
  obtain p where p: "ilike_pattern (search_pattern q) = Some p"
    using search_pattern_parses by blast
  have "invoice_matches q = invoices_pages_where p"
    by (rule ext) (simp add: invoice_matches_def p where_clauses_agree)
  with p show ?thesis by (simp add: count_filtered_invoices_def)
qed

subsection \<open>Page arithmetic\<close>

lemma ceiling_pages: "\<lceil>(of_nat c :: rat) / of_nat ITEMS_PER_PAGE\<rceil> = int ((c + 5) div 6)"
proof -
  have "\<lceil>(of_int (int c) :: rat) / of_int 6\<rceil> = - (- int c div 6)"
    by (rule ceiling_divide_eq_div)
  also have "\<dots> = int ((c + 5) div 6)" by linarith
  finally show ?thesis by (simp add: ITEMS_PER_PAGE_def)
qed

lemma fetchInvoicesPages_healthy:
  "fault conn CountFilteredInvoices = None \<Longrightarrow>
   fetchInvoicesPages conn q =
     ([], int ((length (filter (invoice_matches q) (inner_join (db conn))) + 5) div 6))"
  using count_statement[of q "db conn"]
  by (auto simp: fetchInvoicesPages_def sql_def ceiling_pages)

lemma fetchInvoicesPages_faulted:
  "fault conn CountFilteredInvoices = Some e \<Longrightarrow>
   fetchInvoicesPages conn q = ([(''Database Error (fetchInvoicesPages):'', e)], 1)"
  by (simp add: fetchInvoicesPages_def sql_def)

section \<open>The page count\<close>

text \<open>
  C1, as the specification states it, asks that \<open>fetchInvoicesPages\<close> never returns 0.
  On a database whose only invoice does not match the query \<^verbatim>\<open>zzz\<close>, the count statement
  runs, counts no row, and the operation returns \<^verbatim>\<open>Math.ceil(0 / 6)\<close>, which is 0.
\<close>

theorem fetchInvoicesPages_zero_counterexample:
  "fetchInvoicesPages (healthy small_db) ''zzz'' = ([], 0)"
proof -
  have "filter (invoice_matches ''zzz'') (inner_join small_db) = []"
    by (simp add: invoice_matches_def filtered_invoices_where_def inner_join_def
        example_data search_eval text_casts)
  moreover have "fault (healthy small_db) CountFilteredInvoices = None"
    by (simp add: healthy_def)
  ultimately show ?thesis
    by (simp add: fetchInvoicesPages_healthy healthy_def)
qed

text \<open>
  C1, amended: when the count statement runs, \<open>fetchInvoicesPages\<close> returns the
  ceiling of the number of matching rows divided by 6; this is 0 exactly when no row
  matches and at least 1 otherwise. The value 1 for no matching row is returned only as
  the fallback of a faulted statement.
\<close>

theorem fetchInvoicesPages_ceiling:
  "(fault conn CountFilteredInvoices = None \<longrightarrow>
      snd (fetchInvoicesPages conn q) =
        \<lceil>(of_nat (length (filter (invoice_matches q) (inner_join (db conn)))) :: rat) / 6\<rceil> \<and>
      (snd (fetchInvoicesPages conn q) = 0 \<longleftrightarrow>
         filter (invoice_matches q) (inner_join (db conn)) = []) \<and>
      (filter (invoice_matches q) (inner_join (db conn)) \<noteq> [] \<longrightarrow>
         1 \<le> snd (fetchInvoicesPages conn q))) \<and>
   (fault conn CountFilteredInvoices \<noteq> None \<longrightarrow> snd (fetchInvoicesPages conn q) = 1)"
proof (intro conjI impI)
  assume h: "fault conn CountFilteredInvoices = None"
  let ?n = "length (filter (invoice_matches q) (inner_join (db conn)))"
  have v: "snd (fetchInvoicesPages conn q) = int ((?n + 5) div 6)"
    by (simp add: fetchInvoicesPages_healthy[OF h])
  show "snd (fetchInvoicesPages conn q) = \<lceil>(of_nat ?n :: rat) / 6\<rceil>"
    using v ceiling_pages[of ?n] by (simp add: ITEMS_PER_PAGE_def)
  have "(?n + 5) div 6 = 0 \<longleftrightarrow> ?n = 0" by linarith
  then show "snd (fetchInvoicesPages conn q) = 0 \<longleftrightarrow>
      filter (invoice_matches q) (inner_join (db conn)) = []"
    using v by simp
  show "1 \<le> snd (fetchInvoicesPages conn q)"
    if "filter (invoice_matches q) (inner_join (db conn)) \<noteq> []"
  proof -
    from that have "0 < ?n" by simp
    then have "1 \<le> (?n + 5) div 6" by linarith
    with v show ?thesis by simp
  qed
next
  assume "fault conn CountFilteredInvoices \<noteq> None"
  then obtain e where "fault conn CountFilteredInvoices = Some e" by blast
  then show "snd (fetchInvoicesPages conn q) = 1"
    by (simp add: fetchInvoicesPages_faulted)
qed

theorem fetchInvoicesPages_ceiling_witness:
  "fault (healthy small_db) CountFilteredInvoices = None \<and>
   filter (invoice_matches ''PEND'') (inner_join small_db) = [(invoice1, amy)] \<and>
   snd (fetchInvoicesPages (healthy small_db) ''PEND'') = 1 \<and>
   fault (unreachable small_db) CountFilteredInvoices \<noteq> None \<and>
   snd (fetchInvoicesPages (unreachable small_db) ''PEND'') = 1"
proof -
  have m: "filter (invoice_matches ''PEND'') (inner_join small_db) = [(invoice1, amy)]"
    by (simp add: invoice_matches_def filtered_invoices_where_def inner_join_def
        example_data search_eval text_casts)
  have h: "fault (healthy small_db) CountFilteredInvoices = None"
    by (simp add: healthy_def)
  have u: "fault (unreachable small_db) CountFilteredInvoices \<noteq> None"
    by (simp add: unreachable_def)
  have d: "db (healthy small_db) = small_db"
    by (simp add: healthy_def)
  from fetchInvoicesPages_ceiling[of "healthy small_db" "''PEND''"] h m d
  have "1 \<le> snd (fetchInvoicesPages (healthy small_db) ''PEND'')"
    and "snd (fetchInvoicesPages (healthy small_db) ''PEND'') = \<lceil>(1 :: rat) / 6\<rceil>"
    by simp_all
  moreover have "\<lceil>(1 :: rat) / 6\<rceil> \<le> 1" by (simp add: ceiling_le_iff)
  ultimately have "snd (fetchInvoicesPages (healthy small_db) ''PEND'') = 1" by linarith
  moreover from fetchInvoicesPages_ceiling[of "unreachable small_db" "''PEND''"] u
  have "snd (fetchInvoicesPages (unreachable small_db) ''PEND'') = 1" by blast
  ultimately show ?thesis using h m u by blast
qed

section \<open>The search predicate\<close>

lemma invoice_matches_or:
  "ilike_pattern (search_pattern q) = Some p \<Longrightarrow>
   invoice_matches q r \<longleftrightarrow>
     ilike (cust_name (snd r)) p \<or> ilike (cust_email (snd r)) p \<or>
     ilike (int_text (inv_amount (fst r))) p \<or> ilike (date_text (inv_date (fst r))) p \<or>
     ilike (inv_status (fst r)) p"
  by (simp add: invoice_matches_def filtered_invoices_where_def)

text \<open>
  C3, as the specification states it, makes the search a substring test. The query is
  spliced into a \<^verbatim>\<open>LIKE\<close> pattern unescaped, so the query \<^verbatim>\<open>_\<close> matches an invoice
  none of whose five fields contains an underscore.
\<close>

theorem underscore_query_counterexample:
  "invoice_matches ''_'' (invoice1, amy) \<and>
   \<not> ci_substring ''_'' (cust_name amy) \<and>
   \<not> ci_substring ''_'' (cust_email amy) \<and>
   \<not> ci_substring ''_'' (int_text (inv_amount invoice1)) \<and>
   \<not> ci_substring ''_'' (date_text (inv_date invoice1)) \<and>
   \<not> ci_substring ''_'' (inv_status invoice1)"
  by (simp add: invoice_matches_def filtered_invoices_where_def ci_substring_def
      example_data search_eval text_casts sublist_code)

text \<open>
  C3, amended: a row matches if and only if the pattern \<^verbatim>\<open>%query%\<close> matches, under
  \<^verbatim>\<open>ILIKE\<close>, at least one of customer name, customer email, amount as text, date as text
  and status. For a query without \<^verbatim>\<open>%\<close>, \<^verbatim>\<open>_\<close> and backslash this is the
  case-insensitive substring test on the five fields, and the empty query matches every
  row.
\<close>

theorem invoice_search_predicate:
  "(\<exists>p. ilike_pattern (search_pattern q) = Some p \<and>
      (invoice_matches q r \<longleftrightarrow>
         ilike (cust_name (snd r)) p \<or> ilike (cust_email (snd r)) p \<or>
         ilike (int_text (inv_amount (fst r))) p \<or> ilike (date_text (inv_date (fst r))) p \<or>
         ilike (inv_status (fst r)) p)) \<and>
   (wildcard_free q \<longrightarrow>
      (invoice_matches q r \<longleftrightarrow>
         ci_substring q (cust_name (snd r)) \<or> ci_substring q (cust_email (snd r)) \<or>
         ci_substring q (int_text (inv_amount (fst r))) \<or>
         ci_substring q (date_text (inv_date (fst r))) \<or>
         ci_substring q (inv_status (fst r)))) \<and>
   invoice_matches [] r"
proof (intro conjI impI)
  obtain p where p: "ilike_pattern (search_pattern q) = Some p"
    using search_pattern_parses by blast
  with invoice_matches_or[OF p, of r]
  show "\<exists>p. ilike_pattern (search_pattern q) = Some p \<and>
      (invoice_matches q r \<longleftrightarrow>
         ilike (cust_name (snd r)) p \<or> ilike (cust_email (snd r)) p \<or>
         ilike (int_text (inv_amount (fst r))) p \<or> ilike (date_text (inv_date (fst r))) p \<or>
         ilike (inv_status (fst r)) p)"
    by blast
next
  assume "wildcard_free q"
  then have "ilike_pattern (search_pattern q) = Some (AnySeq # map Lit (lower q) @ [AnySeq])"
    by (rule wildcard_free_pattern)
  from invoice_matches_or[OF this, of r]
  show "invoice_matches q r \<longleftrightarrow>
         ci_substring q (cust_name (snd r)) \<or> ci_substring q (cust_email (snd r)) \<or>
         ci_substring q (int_text (inv_amount (fst r))) \<or>
         ci_substring q (date_text (inv_date (fst r))) \<or>
         ci_substring q (inv_status (fst r))"
    by (simp only: ilike_plain)
next
  show "invoice_matches [] r"
    by (simp add: invoice_matches_or[OF empty_pattern] ilike_everything)
qed

theorem invoice_search_predicate_witness:
  "wildcard_free ''pend'' \<and> inv_status invoice1 = ''pending'' \<and>
   ci_substring ''pend'' ''pending'' \<and> invoice_matches ''pend'' (invoice1, amy)"
proof -
  have w: "wildcard_free ''pend''"
    by (simp add: wildcard_free_def)
  have s: "inv_status invoice1 = ''pending''"
    by (simp add: invoice1_def)
  have c: "ci_substring ''pend'' ''pending''"
    by (simp add: ci_substring_def lower_def lower_char_def sublist_code)
  from invoice_search_predicate[of "''pend''" "(invoice1, amy)"] w s c
  have "invoice_matches ''pend'' (invoice1, amy)" by simp
  with w s c show ?thesis by blast
qed

section \<open>One predicate for the count and for the pages\<close>

lemma set_order_by_desc: "set (order_by_desc k tie xs) = set xs"
  by (simp add: order_by_desc_def)

lemma select_statement:
  "select_filtered_invoices d tie (search_pattern q) l off =
     limit_offset l off (matching_rows d tie q)"
proof -
  obtain p where p: "ilike_pattern (search_pattern q) = Some p"
    using search_pattern_parses by blast
  have "invoice_matches q = filtered_invoices_where p"
    by (rule ext) (simp add: invoice_matches_def p)
  with p show ?thesis by (simp add: select_filtered_invoices_def matching_rows_def)
qed

lemma fetchFilteredInvoices_in_range:
  assumes "fault conn SelectFilteredInvoices = None" and "1 \<le> page"
  shows "fetchFilteredInvoices conn q page =
           ([], take 6 (drop (nat (page - 1) * 6)
                  (matching_rows (db conn) (tie_rank conn SelectFilteredInvoices ((page - 1) * 6)) q)))"
proof -
  from assms(2) have "nat ((page - 1) * 6) = nat (page - 1) * 6"
    by (simp add: nat_mult_distrib)
  with assms show ?thesis
    by (simp add: fetchFilteredInvoices_def sql_def select_statement limit_offset_def
        ITEMS_PER_PAGE_def)
qed

lemma fetchFilteredInvoices_faulted:
  "fault conn SelectFilteredInvoices = Some e \<Longrightarrow>
   fetchFilteredInvoices conn q page = ([(''Database Error (fetchFilteredInvoices):'', e)], [])"
  by (simp add: fetchFilteredInvoices_def sql_def)

lemma fetchFilteredInvoices_below:
  assumes "page < 1"
  shows "snd (fetchFilteredInvoices conn q page) = []"
proof (cases "fault conn SelectFilteredInvoices")
  case None
  with assms show ?thesis
    by (simp add: fetchFilteredInvoices_def sql_def select_statement limit_offset_def
        ITEMS_PER_PAGE_def)
next
  case (Some e)
  then show ?thesis by (simp add: fetchFilteredInvoices_faulted)
qed

lemma counted_is_matching: "counted_by_pages q r = invoice_matches q r"
  by (simp add: counted_by_pages_def invoice_matches_def where_clauses_agree split: option.splits)

lemma set_matching_rows:
  "set (matching_rows d tie q) =
     invoices_table_row ` {r \<in> set (inner_join d). invoice_matches q r}"
  by (simp add: matching_rows_def set_order_by_desc)

text \<open>Whatever the order, a page shows only rows that the predicate accepts.\<close>

lemma page_subset:
  "set (snd (fetchFilteredInvoices conn q page)) \<subseteq>
     invoices_table_row ` {r \<in> set (inner_join (db conn)). invoice_matches q r}"
proof (cases "1 \<le> page \<and> fault conn SelectFilteredInvoices = None")
  case True
  let ?rows = "matching_rows (db conn) (tie_rank conn SelectFilteredInvoices ((page - 1) * 6)) q"
  from True have "snd (fetchFilteredInvoices conn q page) = take 6 (drop (nat (page - 1) * 6) ?rows)"
    by (simp add: fetchFilteredInvoices_in_range)
  moreover have "set (take 6 (drop (nat (page - 1) * 6) ?rows)) \<subseteq> set ?rows"
    by (meson set_take_subset set_drop_subset subset_trans)
  ultimately show ?thesis by (simp add: set_matching_rows)
next
  case False
  then have "snd (fetchFilteredInvoices conn q page) = []"
    by (cases "fault conn SelectFilteredInvoices")
       (auto simp: fetchFilteredInvoices_below fetchFilteredInvoices_faulted)
  then show ?thesis by simp
qed

text \<open>
  C2: the count statement and the page statement filter the join with the same predicate
  (the same five fields joined by \<^verbatim>\<open>OR\<close>). The count statement counts exactly the
  joined rows that its predicate accepts; a joined row is counted if and only if the
  predicate of the page statement accepts it, which is what makes it eligible for the
  pages; and every row that a page of \<open>fetchFilteredInvoices\<close> shows is a counted row.
\<close>

theorem where_predicates_identical:
  "(\<forall>p r. invoices_pages_where p r = filtered_invoices_where p r) \<and>
   count_filtered_invoices (db conn) (search_pattern q) =
     Inr (length (filter (counted_by_pages q) (inner_join (db conn)))) \<and>
   (counted_by_pages q r \<longleftrightarrow> invoice_matches q r) \<and>
   (\<forall>row \<in> set (snd (fetchFilteredInvoices conn q page)).
      \<exists>r \<in> set (inner_join (db conn)). counted_by_pages q r \<and> row = invoices_table_row r)"
proof (intro conjI ballI allI)
  fix p r
  show "invoices_pages_where p r = filtered_invoices_where p r"
    by (rule where_clauses_agree)
next
  have "counted_by_pages q = invoice_matches q"
    by (rule ext) (rule counted_is_matching)
  with count_statement[of q "db conn"]
  show "count_filtered_invoices (db conn) (search_pattern q) =
     Inr (length (filter (counted_by_pages q) (inner_join (db conn))))"
    by auto
next
  show "counted_by_pages q r \<longleftrightarrow> invoice_matches q r"
    by (rule counted_is_matching)
next
  fix row
  assume "row \<in> set (snd (fetchFilteredInvoices conn q page))"
  then have "row \<in> invoices_table_row ` {r \<in> set (inner_join (db conn)). invoice_matches q r}"
    using page_subset by blast
  then show "\<exists>r \<in> set (inner_join (db conn)). counted_by_pages q r \<and> row = invoices_table_row r"
    by (auto simp: counted_is_matching)
qed

lemma small_db_join: "inner_join small_db = [(invoice1, amy)]"
  by (simp add: inner_join_def example_data)

lemma small_db_pend: "invoice_matches ''pend'' (invoice1, amy)"
  by (simp add: invoice_matches_def filtered_invoices_where_def example_data search_eval text_casts)

theorem where_predicates_identical_witness:
  "snd (fetchFilteredInvoices (healthy small_db) ''pend'' 1) = [invoices_table_row (invoice1, amy)] \<and>
   (invoice1, amy) \<in> set (inner_join (db (healthy small_db))) \<and>
   invoice_matches ''pend'' (invoice1, amy) \<and>
   counted_by_pages ''pend'' (invoice1, amy) \<and>
   count_filtered_invoices (db (healthy small_db)) (search_pattern ''pend'') = Inr 1"
proof -
  have h: "fault (healthy small_db) SelectFilteredInvoices = None"
    and d: "db (healthy small_db) = small_db"
    by (simp_all add: healthy_def)
  have j: "(invoice1, amy) \<in> set (inner_join (db (healthy small_db)))"
    by (simp add: d small_db_join)
  have p: "snd (fetchFilteredInvoices (healthy small_db) ''pend'' 1) =
      [invoices_table_row (invoice1, amy)]"
    using fetchFilteredInvoices_in_range[OF h, of 1 "''pend''"]
    by (simp add: d matching_rows_def order_by_desc_def small_db_join small_db_pend)
  note t = where_predicates_identical[of "healthy small_db" "''pend''" "(invoice1, amy)" 1]
  from t small_db_pend have c: "counted_by_pages ''pend'' (invoice1, amy)" by blast
  from t have "count_filtered_invoices (db (healthy small_db)) (search_pattern ''pend'') =
      Inr (length (filter (counted_by_pages ''pend'') (inner_join (db (healthy small_db)))))"
    by blast
  with c have "count_filtered_invoices (db (healthy small_db)) (search_pattern ''pend'') = Inr 1"
    by (simp add: d small_db_join)
  with p j c small_db_pend show ?thesis by blast
qed

section \<open>Pages\<close>

lemma invoice_matches_empty: "invoice_matches [] r"
  by (simp add: invoice_matches_or[OF empty_pattern] ilike_everything)

lemma concat_pages:
  "concat (map (\<lambda>p. take k (drop (p * k) xs)) [0..<n]) = take (n * k) xs"
proof (induction n)
  case 0
  then show ?case by simp
next
  case (Suc n)
  have "take (n * k + k) xs = take (n * k) xs @ take k (drop (n * k) xs)"
    by (rule take_add)
  with Suc show ?case by (simp add: add.commute)
qed

lemma upto_from_one: "[1..int n] = map (\<lambda>i. int i + 1) [0..<n]"
proof (induction n)
  case 0
  then show ?case by simp
next
  case (Suc n)
  have "[1..int (Suc n)] = [1..int n] @ [int n + 1]"
    using upto_rec2[of 1 "int (Suc n)"] by (simp add: add.commute)
  with Suc show ?case by simp
qed

lemma sorted_order_by_desc: "sorted_wrt (\<lambda>a b. k b \<le> k a) (order_by_desc k tie xs)"
proof -
  have "sorted_wrt (\<lambda>a b. k a \<le> k b) (sort_key k (rev (sort_key tie xs)))"
    using sorted_sort_key[of k "rev (sort_key tie xs)"] by (simp add: sorted_map)
  then show ?thesis by (simp add: order_by_desc_def sorted_wrt_rev)
qed

lemma mset_order_by_desc: "mset (order_by_desc k tie xs) = mset xs"
  by (simp add: order_by_desc_def)

text \<open>Rows with pairwise distinct keys have one descending order only.\<close>

lemma order_by_desc_unique:
  assumes "distinct (map k xs)"
  shows "order_by_desc k tie xs = order_by_desc k tie' xs"
proof -
  let ?a = "sort_key k (rev (sort_key tie xs))"
  let ?b = "sort_key k (rev (sort_key tie' xs))"
  have "mset (map k ?a) = mset (map k xs)" "mset (map k ?b) = mset (map k xs)"
    by simp_all
  with assms have d: "distinct (map k ?a)" "distinct (map k ?b)"
    by (metis mset_eq_imp_distinct_iff)+
  have s: "set (map k ?a) = set (map k ?b)"
    by simp
  have "map k ?a = map k ?b"
    by (rule sorted_distinct_set_unique[OF sorted_sort_key d(1) sorted_sort_key d(2) s])
  moreover have "inj_on k (set ?a \<union> set ?b)"
    using assms by (simp add: distinct_map)
  ultimately have "?a = ?b"
    by (simp add: inj_on_map_eq_map)
  then show ?thesis by (simp add: order_by_desc_def)
qed

lemma date_key_inject: "date_key a = date_key b \<longleftrightarrow> a = b"
  by (cases a; cases b) (simp add: date_key_def)

lemma matching_rows_tie_irrelevant:
  assumes "distinct (map (\<lambda>r. inv_date (fst r)) (filter (invoice_matches q) (inner_join d)))"
  shows "matching_rows d tie q = matching_rows d tie' q"
proof -
  let ?xs = "filter (invoice_matches q) (inner_join d)"
  have "distinct (map (\<lambda>r. date_key (inv_date (fst r))) ?xs)"
    using assms by (auto simp: distinct_map inj_on_def date_key_inject)
  then have "order_by_desc (\<lambda>r. date_key (inv_date (fst r))) tie ?xs =
      order_by_desc (\<lambda>r. date_key (inv_date (fst r))) tie' ?xs"
    by (rule order_by_desc_unique)
  then show ?thesis by (simp add: matching_rows_def)
qed

lemma length_matching_rows:
  "length (matching_rows d tie q) = length (filter (invoice_matches q) (inner_join d))"
  by (simp add: matching_rows_def order_by_desc_def)

lemma mset_matching_rows:
  "mset (matching_rows d tie q) =
     image_mset invoices_table_row (filter_mset (invoice_matches q) (mset (inner_join d)))"
  by (simp add: matching_rows_def mset_order_by_desc)

lemma date_descending_matching_rows: "date_descending (matching_rows d tie q)"
proof -
  have "sorted_wrt (\<lambda>a b. date_key (inv_date (fst b)) \<le> date_key (inv_date (fst a)))
          (order_by_desc (\<lambda>r. date_key (inv_date (fst r))) tie
             (filter (invoice_matches q) (inner_join d)))"
    by (rule sorted_order_by_desc)
  then show ?thesis
    by (simp add: date_descending_def matching_rows_def sorted_wrt_map invoices_table_row_def)
qed

lemma pages_concat:
  assumes f: "fault conn SelectFilteredInvoices = None"
    and same: "\<And>off. matching_rows (db conn) (tie_rank conn SelectFilteredInvoices off) q = rows"
  shows "concat (map (\<lambda>p. snd (fetchFilteredInvoices conn q p)) [1..int n]) = take (n * 6) rows"
proof -
  have "map (\<lambda>p. snd (fetchFilteredInvoices conn q p)) [1..int n] =
        map (\<lambda>i. take 6 (drop (i * 6) rows)) [0..<n]"
    by (simp add: upto_from_one fetchFilteredInvoices_in_range[OF f] same)
  then show ?thesis by (simp only: concat_pages)
qed

text \<open>
  C4, as the specification states it, holds of every database. The page statements order
  by date alone, and among invoices of one date every statement is free in its order.
  Seven invoices of one date: the statement of page 1 emits them in scan order and shows
  \<^verbatim>\<open>t1\<close> to \<^verbatim>\<open>t6\<close>; the statement of page 2 emits them by ascending amount, \<^verbatim>\<open>t7\<close>
  first, and shows \<^verbatim>\<open>t1\<close> again. The matching invoice \<^verbatim>\<open>t7\<close> is on neither page.
\<close>

theorem tied_dates_counterexample:
  "snd (fetchInvoicesPages (reshuffling tied_db) []) = 2 \<and>
   fst (fetchFilteredInvoices (reshuffling tied_db) [] 1) = [] \<and>
   map it_id (snd (fetchFilteredInvoices (reshuffling tied_db) [] 1)) =
     [''t1'', ''t2'', ''t3'', ''t4'', ''t5'', ''t6''] \<and>
   fst (fetchFilteredInvoices (reshuffling tied_db) [] 2) = [] \<and>
   map it_id (snd (fetchFilteredInvoices (reshuffling tied_db) [] 2)) = [''t1''] \<and>
   (tied_invoice 7, lee) \<in> set (inner_join (db (reshuffling tied_db))) \<and>
   invoice_matches [] (tied_invoice 7, lee) \<and>
   it_id (invoices_table_row (tied_invoice 7, lee)) = ''t7''"
proof -
  have f: "fault (reshuffling tied_db) SelectFilteredInvoices = None"
    and c: "fault (reshuffling tied_db) CountFilteredInvoices = None"
    and d: "db (reshuffling tied_db) = tied_db"
    by (simp_all add: reshuffling_def)
  have j: "inner_join tied_db = map (\<lambda>n. (tied_invoice n, lee)) [1, 2, 3, 4, 5, 6, 7]"
    by (simp add: inner_join_def tied_db_def tied_invoice_def amy_def lee_def)
  have n: "snd (fetchInvoicesPages (reshuffling tied_db) []) = 2"
    by (simp add: fetchInvoicesPages_healthy[OF c] d j invoice_matches_empty)
  have tie0: "tie_rank (reshuffling tied_db) SelectFilteredInvoices 0 = (\<lambda>r. 0)"
    and tie6: "tie_rank (reshuffling tied_db) SelectFilteredInvoices 6 =
      (\<lambda>r. nat (inv_amount (fst r)))"
    by (simp_all add: reshuffling_def)
  have rows0: "map it_id (matching_rows tied_db (\<lambda>r. 0) []) =
     [''t1'', ''t2'', ''t3'', ''t4'', ''t5'', ''t6'', ''t7'']"
    by (simp add: matching_rows_def j invoice_matches_empty order_by_desc_def
        invoices_table_row_def tied_invoice_def date_key_def nat_text.simps digit_char_def)
  have rows6: "map it_id (matching_rows tied_db (\<lambda>r. nat (inv_amount (fst r))) []) =
     [''t7'', ''t6'', ''t5'', ''t4'', ''t3'', ''t2'', ''t1'']"
    by (simp add: matching_rows_def j invoice_matches_empty order_by_desc_def
        invoices_table_row_def tied_invoice_def date_key_def nat_text.simps digit_char_def)
  have p1: "map it_id (snd (fetchFilteredInvoices (reshuffling tied_db) [] 1)) =
     [''t1'', ''t2'', ''t3'', ''t4'', ''t5'', ''t6'']"
    by (simp add: fetchFilteredInvoices_in_range[OF f] d tie0 take_map[symmetric] rows0)
  have p2: "map it_id (snd (fetchFilteredInvoices (reshuffling tied_db) [] 2)) = [''t1'']"
    by (simp add: fetchFilteredInvoices_in_range[OF f] d tie6 take_map[symmetric]
        drop_map[symmetric] rows6)
  have l: "fst (fetchFilteredInvoices (reshuffling tied_db) [] 1) = []"
    "fst (fetchFilteredInvoices (reshuffling tied_db) [] 2) = []"
    by (simp_all add: fetchFilteredInvoices_in_range[OF f])
  have m: "(tied_invoice 7, lee) \<in> set (inner_join (db (reshuffling tied_db)))"
    by (simp add: d j)
  have i: "it_id (invoices_table_row (tied_invoice 7, lee)) = ''t7''"
    by (simp add: invoices_table_row_def tied_invoice_def nat_text.simps digit_char_def)
  from n p1 p2 l m i invoice_matches_empty show ?thesis by blast
qed

text \<open>
  C4, amended: when both statements run, and either the rows matching the query have
  pairwise distinct dates or the database emits rows of equal date in the same order for
  every page statement, the pages 1 to \<open>fetchInvoicesPages\<close> of the query, put one after
  the other, are the matching rows in descending order of date: every joined row that
  matches occurs in them exactly as often as in the join, with nothing repeated and
  nothing left out at a page boundary. A page is cut with offset \<open>(page - 1) * 6\<close> and
  limit 6.
\<close>

theorem pages_partition_matching_rows:
  "fault conn SelectFilteredInvoices = None \<and> fault conn CountFilteredInvoices = None \<and>
   (distinct (map (\<lambda>r. inv_date (fst r)) (filter (invoice_matches q) (inner_join (db conn)))) \<or>
    (\<forall>off. tie_rank conn SelectFilteredInvoices off = tie_rank conn SelectFilteredInvoices 0)) \<longrightarrow>
     concat (map (\<lambda>p. snd (fetchFilteredInvoices conn q p)) [1..snd (fetchInvoicesPages conn q)]) =
       matching_rows (db conn) (tie_rank conn SelectFilteredInvoices 0) q \<and>
     mset (matching_rows (db conn) (tie_rank conn SelectFilteredInvoices 0) q) =
       image_mset invoices_table_row (filter_mset (invoice_matches q) (mset (inner_join (db conn)))) \<and>
     date_descending (matching_rows (db conn) (tie_rank conn SelectFilteredInvoices 0) q)"
proof (intro impI conjI)
  assume h: "fault conn SelectFilteredInvoices = None \<and> fault conn CountFilteredInvoices = None \<and>
   (distinct (map (\<lambda>r. inv_date (fst r)) (filter (invoice_matches q) (inner_join (db conn)))) \<or>
    (\<forall>off. tie_rank conn SelectFilteredInvoices off = tie_rank conn SelectFilteredInvoices 0))"
  let ?rows = "matching_rows (db conn) (tie_rank conn SelectFilteredInvoices 0) q"
  let ?len = "length (filter (invoice_matches q) (inner_join (db conn)))"
  let ?n = "(?len + 5) div 6"
  have same: "matching_rows (db conn) (tie_rank conn SelectFilteredInvoices off) q = ?rows" for off
  proof (cases "distinct (map (\<lambda>r. inv_date (fst r)) (filter (invoice_matches q) (inner_join (db conn))))")
    case True
    then show ?thesis by (rule matching_rows_tie_irrelevant)
  next
    case False
    with h have "tie_rank conn SelectFilteredInvoices off = tie_rank conn SelectFilteredInvoices 0"
      by blast
    then show ?thesis by simp
  qed
  from h have f: "fault conn SelectFilteredInvoices = None"
    and c: "fault conn CountFilteredInvoices = None"
    by blast+
  have pages: "snd (fetchInvoicesPages conn q) = int ?n"
    by (simp add: fetchInvoicesPages_healthy[OF c])
  have "length ?rows \<le> ?n * 6"
    unfolding length_matching_rows by linarith
  then have "take (?n * 6) ?rows = ?rows"
    by simp
  with pages_concat[OF f same, of ?n] pages
  show "concat (map (\<lambda>p. snd (fetchFilteredInvoices conn q p)) [1..snd (fetchInvoicesPages conn q)]) =
       ?rows"
    by simp
next
  show "mset (matching_rows (db conn) (tie_rank conn SelectFilteredInvoices 0) q) =
       image_mset invoices_table_row (filter_mset (invoice_matches q) (mset (inner_join (db conn))))"
    by (rule mset_matching_rows)
next
  show "date_descending (matching_rows (db conn) (tie_rank conn SelectFilteredInvoices 0) q)"
    by (rule date_descending_matching_rows)
qed

text \<open>
  C8: \<open>fetchFilteredInvoices\<close> neither clamps nor validates the page number. For a page
  below 1 or above the page count of the query it returns the empty list and raises
  nothing. Below 1 the offset is negative, the database refuses the statement, and the
  operation logs that fault and returns its empty default.
\<close>

theorem out_of_range_page_is_empty:
  "(fault conn CountFilteredInvoices = None \<and>
    (page < 1 \<or> snd (fetchInvoicesPages conn q) < page) \<longrightarrow>
      snd (fetchFilteredInvoices conn q page) = []) \<and>
   (fault conn SelectFilteredInvoices = None \<and> page < 1 \<longrightarrow>
      fst (fetchFilteredInvoices conn q page) =
        [(''Database Error (fetchFilteredInvoices):'', NegativeOffset)])"
proof (intro conjI impI)
  assume h: "fault conn CountFilteredInvoices = None \<and>
    (page < 1 \<or> snd (fetchInvoicesPages conn q) < page)"
  let ?len = "length (filter (invoice_matches q) (inner_join (db conn)))"
  show "snd (fetchFilteredInvoices conn q page) = []"
  proof (cases "page < 1")
    case True
    then show ?thesis by (rule fetchFilteredInvoices_below)
  next
    case False
    from h have "fault conn CountFilteredInvoices = None" by blast
    from fetchInvoicesPages_healthy[OF this, of q] h False
    have above: "int ((?len + 5) div 6) < page" by simp
    show ?thesis
    proof (cases "fault conn SelectFilteredInvoices")
      case (Some e)
      then show ?thesis by (simp add: fetchFilteredInvoices_faulted)
    next
      case None
      from above have "(?len + 5) div 6 \<le> nat (page - 1)" by linarith
      then have "?len \<le> nat (page - 1) * 6" by linarith
      then have "drop (nat (page - 1) * 6) (matching_rows (db conn) tie q) = []" for tie
        by (simp add: length_matching_rows)
      with None False show ?thesis
        by (simp add: fetchFilteredInvoices_in_range)
    qed
  qed
next
  assume "fault conn SelectFilteredInvoices = None \<and> page < 1"
  then show "fst (fetchFilteredInvoices conn q page) =
        [(''Database Error (fetchFilteredInvoices):'', NegativeOffset)]"
    by (simp add: fetchFilteredInvoices_def sql_def select_statement limit_offset_def
        ITEMS_PER_PAGE_def)
qed

subsection \<open>The pages of the seven June invoices\<close>

lemma busy_db_join: "inner_join busy_db = map (\<lambda>n. (june_invoice n, lee)) [3, 1, 7, 5, 2, 6, 4]"
  by (simp add: inner_join_def busy_db_def june_invoice_def amy_def lee_def)

lemma busy_db_dates:
  "distinct (map (\<lambda>r. inv_date (fst r)) (filter (invoice_matches []) (inner_join busy_db)))"
  by (simp add: busy_db_join invoice_matches_empty june_invoice_def)

lemma busy_db_rows:
  "map it_id (matching_rows busy_db tie []) = [''i7'', ''i6'', ''i5'', ''i4'', ''i3'', ''i2'', ''i1'']"
proof -
  have "matching_rows busy_db tie [] = matching_rows busy_db (\<lambda>r. 0) []"
    using busy_db_dates by (rule matching_rows_tie_irrelevant)
  then show ?thesis
    by (simp add: matching_rows_def busy_db_join invoice_matches_empty order_by_desc_def
        invoices_table_row_def june_invoice_def date_key_def nat_text.simps digit_char_def)
qed

theorem pages_partition_matching_rows_witness:
  "fault (reshuffling busy_db) SelectFilteredInvoices = None \<and>
   fault (reshuffling busy_db) CountFilteredInvoices = None \<and>
   distinct (map (\<lambda>r. inv_date (fst r))
     (filter (invoice_matches []) (inner_join (db (reshuffling busy_db))))) \<and>
   tie_rank (reshuffling busy_db) SelectFilteredInvoices 0 (june_invoice 3, lee) = 0 \<and>
   tie_rank (reshuffling busy_db) SelectFilteredInvoices 6 (june_invoice 3, lee) = 4500 \<and>
   snd (fetchInvoicesPages (reshuffling busy_db) []) = 2 \<and>
   map it_id (snd (fetchFilteredInvoices (reshuffling busy_db) [] 1)) =
     [''i7'', ''i6'', ''i5'', ''i4'', ''i3'', ''i2''] \<and>
   map it_id (snd (fetchFilteredInvoices (reshuffling busy_db) [] 2)) = [''i1''] \<and>
   map it_id (concat (map (\<lambda>p. snd (fetchFilteredInvoices (reshuffling busy_db) [] p))
                [1..snd (fetchInvoicesPages (reshuffling busy_db) [])])) =
     [''i7'', ''i6'', ''i5'', ''i4'', ''i3'', ''i2'', ''i1'']"
proof -
  have f: "fault (reshuffling busy_db) SelectFilteredInvoices = None"
    and c: "fault (reshuffling busy_db) CountFilteredInvoices = None"
    and d: "db (reshuffling busy_db) = busy_db"
    by (simp_all add: reshuffling_def)
  have t: "tie_rank (reshuffling busy_db) SelectFilteredInvoices 0 (june_invoice 3, lee) = 0"
    "tie_rank (reshuffling busy_db) SelectFilteredInvoices 6 (june_invoice 3, lee) = 4500"
    by (simp_all add: reshuffling_def june_invoice_def)
  have u: "distinct (map (\<lambda>r. inv_date (fst r))
     (filter (invoice_matches []) (inner_join (db (reshuffling busy_db)))))"
    using busy_db_dates by (simp add: d)
  have n: "snd (fetchInvoicesPages (reshuffling busy_db) []) = 2"
    by (simp add: fetchInvoicesPages_healthy[OF c] d busy_db_join invoice_matches_empty)
  have p1: "map it_id (snd (fetchFilteredInvoices (reshuffling busy_db) [] 1)) =
     [''i7'', ''i6'', ''i5'', ''i4'', ''i3'', ''i2'']"
    by (simp add: fetchFilteredInvoices_in_range[OF f] d take_map[symmetric] busy_db_rows)
  have p2: "map it_id (snd (fetchFilteredInvoices (reshuffling busy_db) [] 2)) = [''i1'']"
    by (simp add: fetchFilteredInvoices_in_range[OF f] d take_map[symmetric] drop_map[symmetric]
        busy_db_rows)
  from pages_partition_matching_rows[of "reshuffling busy_db" "[]"] f c u
  have "concat (map (\<lambda>p. snd (fetchFilteredInvoices (reshuffling busy_db) [] p))
                [1..snd (fetchInvoicesPages (reshuffling busy_db) [])]) =
        matching_rows (db (reshuffling busy_db))
          (tie_rank (reshuffling busy_db) SelectFilteredInvoices 0) []"
    by blast
  then have "map it_id (concat (map (\<lambda>p. snd (fetchFilteredInvoices (reshuffling busy_db) [] p))
                [1..snd (fetchInvoicesPages (reshuffling busy_db) [])])) =
     [''i7'', ''i6'', ''i5'', ''i4'', ''i3'', ''i2'', ''i1'']"
    by (simp only: d busy_db_rows)
  with f c u t n p1 p2 show ?thesis by blast
qed

theorem out_of_range_page_is_empty_witness:
  "fault (healthy busy_db) CountFilteredInvoices = None \<and>
   fault (healthy busy_db) SelectFilteredInvoices = None \<and>
   snd (fetchInvoicesPages (healthy busy_db) []) = 2 \<and>
   fetchFilteredInvoices (healthy busy_db) [] 3 = ([], []) \<and>
   fetchFilteredInvoices (healthy busy_db) [] 0 =
     ([(''Database Error (fetchFilteredInvoices):'', NegativeOffset)], [])"
proof -
  have f: "fault (healthy busy_db) SelectFilteredInvoices = None"
    and c: "fault (healthy busy_db) CountFilteredInvoices = None"
    and d: "db (healthy busy_db) = busy_db"
    by (simp_all add: healthy_def)
  have n: "snd (fetchInvoicesPages (healthy busy_db) []) = 2"
    by (simp add: fetchInvoicesPages_healthy[OF c] d busy_db_join invoice_matches_empty)
  have l3: "fst (fetchFilteredInvoices (healthy busy_db) [] 3) = []"
    by (simp add: fetchFilteredInvoices_in_range[OF f])
  from out_of_range_page_is_empty[of "healthy busy_db" 3 "[]"] c n
  have r3: "snd (fetchFilteredInvoices (healthy busy_db) [] 3) = []" by simp
  from out_of_range_page_is_empty[of "healthy busy_db" 0 "[]"] c f
  have r0: "snd (fetchFilteredInvoices (healthy busy_db) [] 0) = []"
    and l0: "fst (fetchFilteredInvoices (healthy busy_db) [] 0) =
      [(''Database Error (fetchFilteredInvoices):'', NegativeOffset)]"
    by simp_all
  from l3 r3 have "fetchFilteredInvoices (healthy busy_db) [] 3 = ([], [])"
    by (simp add: prod_eq_iff)
  moreover from l0 r0 have "fetchFilteredInvoices (healthy busy_db) [] 0 =
     ([(''Database Error (fetchFilteredInvoices):'', NegativeOffset)], [])"
    by (simp add: prod_eq_iff)
  ultimately show ?thesis using f c n by blast
qed

section \<open>Faults\<close>

lemma first_rejected_member: "first_rejected conn x xs \<in> snd ` set (x # xs)"
  by (induction xs arbitrary: x) auto

lemma rejection_member: "(st, e) \<in> set (rejection st' r) \<Longrightarrow> r = Inl e"
  by (auto simp: rejection_def split: sum.splits)

lemma fetchCardData_rejected:
  fixes fmt conn
  defines "r1 \<equiv> sql conn CountInvoices (count_invoices (db conn))"
    and "r2 \<equiv> sql conn CountCustomers (count_customers (db conn))"
    and "r3 \<equiv> sql conn SumTotals (sum_totals (db conn))"
  assumes "isl r1 \<or> isl r2 \<or> isl r3"
  shows "\<exists>e. (r1 = Inl e \<or> r2 = Inl e \<or> r3 = Inl e) \<and>
           fetchCardData fmt conn = ([(''Database Error (fetchCardData):'', e)], card_default)"
proof -
  let ?rs = "rejection CountInvoices r1 @ rejection CountCustomers r2 @ rejection SumTotals r3"
  from assms(4) have "?rs \<noteq> []"
    by (auto simp: rejection_def split: sum.splits)
  then obtain x xs where xs: "?rs = x # xs" by (cases ?rs) auto
  have "first_rejected conn x xs \<in> snd ` set ?rs"
    unfolding xs by (rule first_rejected_member)
  then obtain st where "(st, first_rejected conn x xs) \<in> set ?rs" by force
  then have e: "r1 = Inl (first_rejected conn x xs) \<or> r2 = Inl (first_rejected conn x xs) \<or>
      r3 = Inl (first_rejected conn x xs)"
    by (auto dest: rejection_member)
  have "fetchCardData fmt conn =
      ([(''Database Error (fetchCardData):'', first_rejected conn x xs)], card_default)"
    using assms(4) xs
    by (auto simp: fetchCardData_def Let_def r1_def r2_def r3_def split: sum.splits)
  with e show ?thesis by blast
qed

text \<open>
  C5: whenever the statement of an operation faults with an error, the operation raises
  nothing: it prints one console line, made of the message that names the operation and of
  that error, and returns its default. The default is the empty list for
  \<open>fetchRevenue\<close>, \<open>fetchLatestInvoices\<close>, \<open>fetchFilteredInvoices\<close>,
  \<open>fetchCustomers\<close> and \<open>fetchFilteredCustomers\<close>, page count 1 for
  \<open>fetchInvoicesPages\<close>, not found for \<open>fetchInvoiceById\<close>, and for
  \<open>fetchCardData\<close>, as soon as one of its three statements faults, the summary with
  both counts 0 and both totals the peso sign followed by 0.
\<close>

theorem faults_become_defaults:
  "(sql conn SelectRevenue (select_revenue (db conn)) = Inl e \<longrightarrow>
      fetchRevenue conn = ([(''Database Error (fetchRevenue):'', e)], [])) \<and>
   (sql conn SelectLatestInvoices
        (select_latest_invoices (db conn) (tie_rank conn SelectLatestInvoices 0)) = Inl e \<longrightarrow>
      fetchLatestInvoices fmt conn = ([(''Database Error (fetchLatestInvoices):'', e)], [])) \<and>
   (sql conn SelectFilteredInvoices
        (select_filtered_invoices (db conn)
           (tie_rank conn SelectFilteredInvoices ((page - 1) * int ITEMS_PER_PAGE))
           (search_pattern q) ITEMS_PER_PAGE ((page - 1) * int ITEMS_PER_PAGE)) = Inl e \<longrightarrow>
      fetchFilteredInvoices conn q page = ([(''Database Error (fetchFilteredInvoices):'', e)], [])) \<and>
   (sql conn SelectCustomers (select_customers (db conn)) = Inl e \<longrightarrow>
      fetchCustomers conn = ([(''Database Error (fetchCustomers):'', e)], [])) \<and>
   (sql conn SelectFilteredCustomers (select_filtered_customers (db conn) (search_pattern q)) = Inl e \<longrightarrow>
      fetchFilteredCustomers fmt conn q = ([(''Database Error (fetchFilteredCustomers):'', e)], [])) \<and>
   (sql conn CountFilteredInvoices (count_filtered_invoices (db conn) (search_pattern q)) = Inl e \<longrightarrow>
      fetchInvoicesPages conn q = ([(''Database Error (fetchInvoicesPages):'', e)], 1)) \<and>
   (sql conn SelectInvoiceById (select_invoice_by_id (db conn) ident) = Inl e \<longrightarrow>
      fetchInvoiceById conn ident = ([(''Database Error (fetchInvoiceById):'', e)], None)) \<and>
   (isl (sql conn CountInvoices (count_invoices (db conn))) \<or>
    isl (sql conn CountCustomers (count_customers (db conn))) \<or>
    isl (sql conn SumTotals (sum_totals (db conn))) \<longrightarrow>
      (\<exists>e'. (sql conn CountInvoices (count_invoices (db conn)) = Inl e' \<or>
             sql conn CountCustomers (count_customers (db conn)) = Inl e' \<or>
             sql conn SumTotals (sum_totals (db conn)) = Inl e') \<and>
            fetchCardData fmt conn =
              ([(''Database Error (fetchCardData):'', e')],
               \<lparr>numberOfInvoices = 0, numberOfCustomers = 0,
                totalPaidInvoices = [CHR 0xE2, CHR 0x82, CHR 0xB1, CHR ''0''],
                totalPendingInvoices = [CHR 0xE2, CHR 0x82, CHR 0xB1, CHR ''0'']\<rparr>)))"
proof (intro conjI impI)
  assume "isl (sql conn CountInvoices (count_invoices (db conn))) \<or>
    isl (sql conn CountCustomers (count_customers (db conn))) \<or>
    isl (sql conn SumTotals (sum_totals (db conn)))"
  from fetchCardData_rejected[OF this, of fmt]
  show "\<exists>e'. (sql conn CountInvoices (count_invoices (db conn)) = Inl e' \<or>
             sql conn CountCustomers (count_customers (db conn)) = Inl e' \<or>
             sql conn SumTotals (sum_totals (db conn)) = Inl e') \<and>
            fetchCardData fmt conn =
              ([(''Database Error (fetchCardData):'', e')],
               \<lparr>numberOfInvoices = 0, numberOfCustomers = 0,
                totalPaidInvoices = [CHR 0xE2, CHR 0x82, CHR 0xB1, CHR ''0''],
                totalPendingInvoices = [CHR 0xE2, CHR 0x82, CHR 0xB1, CHR ''0'']\<rparr>)"
    by (simp add: card_default_def peso_zero_def)
qed (simp_all add: fetchRevenue_def fetchLatestInvoices_def fetchFilteredInvoices_def
      fetchCustomers_def fetchFilteredCustomers_def fetchInvoicesPages_def fetchInvoiceById_def)

theorem faults_become_defaults_witness:
  "fetchRevenue (unreachable small_db) =
     ([(''Database Error (fetchRevenue):'', ExecutionFault ''connect ECONNREFUSED'')], []) \<and>
   fetchLatestInvoices formatCurrency (unreachable small_db) =
     ([(''Database Error (fetchLatestInvoices):'', ExecutionFault ''connect ECONNREFUSED'')], []) \<and>
   fetchFilteredInvoices (unreachable small_db) ''amy'' 1 =
     ([(''Database Error (fetchFilteredInvoices):'', ExecutionFault ''connect ECONNREFUSED'')], []) \<and>
   fetchCustomers (unreachable small_db) =
     ([(''Database Error (fetchCustomers):'', ExecutionFault ''connect ECONNREFUSED'')], []) \<and>
   fetchFilteredCustomers formatCurrency (unreachable small_db) ''amy'' =
     ([(''Database Error (fetchFilteredCustomers):'', ExecutionFault ''connect ECONNREFUSED'')], []) \<and>
   fetchInvoicesPages (unreachable small_db) ''amy'' =
     ([(''Database Error (fetchInvoicesPages):'', ExecutionFault ''connect ECONNREFUSED'')], 1) \<and>
   fetchInvoiceById (unreachable small_db) ''i1'' =
     ([(''Database Error (fetchInvoiceById):'', ExecutionFault ''connect ECONNREFUSED'')], None) \<and>
   fetchCardData formatCurrency (unreachable small_db) =
     ([(''Database Error (fetchCardData):'', ExecutionFault ''connect ECONNREFUSED'')],
      \<lparr>numberOfInvoices = 0, numberOfCustomers = 0,
       totalPaidInvoices = [CHR 0xE2, CHR 0x82, CHR 0xB1, CHR ''0''],
       totalPendingInvoices = [CHR 0xE2, CHR 0x82, CHR 0xB1, CHR ''0'']\<rparr>)"
proof -
  have down: "sql (unreachable small_db) st r = Inl (ExecutionFault ''connect ECONNREFUSED'')"
    for st and r :: "db_error + 'a"
    by (simp add: sql_def unreachable_def)
  from faults_become_defaults[where conn = "unreachable small_db"
      and e = "ExecutionFault ''connect ECONNREFUSED''" and fmt = formatCurrency
      and q = "''amy''" and page = 1 and ident = "''i1''"]
  show ?thesis
    by (simp add: down)
qed

section \<open>The single invoice\<close>

lemma first_of_filter:
  "(case filter P xs of [] \<Rightarrow> None | x # _ \<Rightarrow> Some x) = find P xs"
  by (induction xs) auto

lemma fetchInvoiceById_healthy:
  assumes "fault conn SelectInvoiceById = None"
  shows "fetchInvoiceById conn ident =
     ([], case find (\<lambda>i. inv_id i = ident) (invoices (db conn)) of
            None \<Rightarrow> None
          | Some i \<Rightarrow>
              Some \<lparr>form_id = inv_id i, form_customer_id = inv_customer_id i,
                    form_amount = of_int (inv_amount i) / 100, form_status = inv_status i\<rparr>)"
proof -
  let ?hits = "filter (\<lambda>i. inv_id i = ident) (invoices (db conn))"
  have "find (\<lambda>i. inv_id i = ident) (invoices (db conn)) =
      (case ?hits of [] \<Rightarrow> None | x # _ \<Rightarrow> Some x)"
    by (simp add: first_of_filter)
  with assms show ?thesis
    by (cases ?hits)
       (simp_all add: fetchInvoiceById_def sql_def select_invoice_by_id_def invoice_form_of_def)
qed

text \<open>
  C9: for every identifier, when an invoice with that identifier is stored,
  \<open>fetchInvoiceById\<close> returns the first such invoice of the scan with its amount divided
  by 100 (stored 100000 gives 1000), and when none is stored it returns not found.
\<close>

theorem fetchInvoiceById_divides_by_100:
  "(fault conn SelectInvoiceById = None \<and>
    find (\<lambda>i. inv_id i = ident) (invoices (db conn)) = Some i \<longrightarrow>
      fetchInvoiceById conn ident =
        ([], Some \<lparr>form_id = inv_id i, form_customer_id = inv_customer_id i,
                   form_amount = of_int (inv_amount i) / 100, form_status = inv_status i\<rparr>)) \<and>
   ((\<exists>i \<in> set (invoices (db conn)). inv_id i = ident) \<longrightarrow>
      (\<exists>i \<in> set (invoices (db conn)).
         inv_id i = ident \<and> find (\<lambda>i. inv_id i = ident) (invoices (db conn)) = Some i)) \<and>
   ((\<forall>i \<in> set (invoices (db conn)). inv_id i \<noteq> ident) \<longrightarrow>
      snd (fetchInvoiceById conn ident) = None)"
proof (intro conjI impI)
  assume "fault conn SelectInvoiceById = None \<and>
    find (\<lambda>i. inv_id i = ident) (invoices (db conn)) = Some i"
  then show "fetchInvoiceById conn ident =
        ([], Some \<lparr>form_id = inv_id i, form_customer_id = inv_customer_id i,
                   form_amount = of_int (inv_amount i) / 100, form_status = inv_status i\<rparr>)"
    by (simp add: fetchInvoiceById_healthy)
next
  assume "\<exists>i \<in> set (invoices (db conn)). inv_id i = ident"
  then obtain i where "find (\<lambda>i. inv_id i = ident) (invoices (db conn)) = Some i"
    by (cases "find (\<lambda>i. inv_id i = ident) (invoices (db conn))") (auto simp: find_None_iff)
  then show "\<exists>i \<in> set (invoices (db conn)).
         inv_id i = ident \<and> find (\<lambda>i. inv_id i = ident) (invoices (db conn)) = Some i"
    by (auto simp: find_Some_iff)
next
  assume none: "\<forall>i \<in> set (invoices (db conn)). inv_id i \<noteq> ident"
  then have f: "find (\<lambda>i. inv_id i = ident) (invoices (db conn)) = None"
    by (simp add: find_None_iff)
  show "snd (fetchInvoiceById conn ident) = None"
  proof (cases "fault conn SelectInvoiceById")
    case None
    with f show ?thesis by (simp add: fetchInvoiceById_healthy)
  next
    case (Some e)
    then show ?thesis by (simp add: fetchInvoiceById_def sql_def)
  qed
qed

theorem fetchInvoiceById_divides_by_100_witness:
  "fault (healthy small_db) SelectInvoiceById = None \<and>
   find (\<lambda>i. inv_id i = ''i1'') (invoices (db (healthy small_db))) = Some invoice1 \<and>
   inv_amount invoice1 = 100000 \<and>
   fetchInvoiceById (healthy small_db) ''i1'' =
     ([], Some \<lparr>form_id = ''i1'', form_customer_id = ''c1'', form_amount = 1000,
                form_status = ''pending''\<rparr>) \<and>
   map inv_id (invoices (db (healthy small_db))) = [''i1''] \<and>
   snd (fetchInvoiceById (healthy small_db) ''i2'') = None"
proof -
  have h: "fault (healthy small_db) SelectInvoiceById = None"
    by (simp add: healthy_def)
  have f: "find (\<lambda>i. inv_id i = ''i1'') (invoices (db (healthy small_db))) = Some invoice1"
    by (simp add: example_data)
  have n: "\<forall>i \<in> set (invoices (db (healthy small_db))). inv_id i \<noteq> ''i2''"
    by (simp add: example_data)
  from fetchInvoiceById_divides_by_100[of "healthy small_db" "''i1''" invoice1] h f
  have "fetchInvoiceById (healthy small_db) ''i1'' =
     ([], Some \<lparr>form_id = ''i1'', form_customer_id = ''c1'', form_amount = 1000,
                form_status = ''pending''\<rparr>)"
    by (simp add: invoice1_def)
  moreover from fetchInvoiceById_divides_by_100[of "healthy small_db" "''i2''"] n
  have "snd (fetchInvoiceById (healthy small_db) ''i2'') = None" by blast
  moreover have "inv_amount invoice1 = 100000" by (simp add: invoice1_def)
  moreover have "map inv_id (invoices (db (healthy small_db))) = [''i1'']"
    by (simp add: example_data)
  ultimately show ?thesis using h f by blast
qed

section \<open>The summary cards\<close>

lemma nullish_sql_sum: "nullish (sql_sum xs) 0 = sum_list xs"
  by (simp add: nullish_def sql_sum_def)

lemma fetchCardData_healthy:
  assumes "fault conn CountInvoices = None" "fault conn CountCustomers = None"
    "fault conn SumTotals = None"
  shows "fetchCardData fmt conn =
     ([], \<lparr>numberOfInvoices = length (invoices (db conn)),
           numberOfCustomers = length (customers (db conn)),
           totalPaidInvoices =
             fmt (Some (sum_list (map (\<lambda>i. if inv_status i = ''paid'' then inv_amount i else 0)
                                   (invoices (db conn))))),
           totalPendingInvoices =
             fmt (Some (sum_list (map (\<lambda>i. if inv_status i = ''pending'' then inv_amount i else 0)
                                   (invoices (db conn)))))\<rparr>)"
  using assms
  by (simp add: fetchCardData_def sql_def count_invoices_def count_customers_def sum_totals_def
      nullish_sql_sum)

text \<open>
  C7: \<open>fetchCardData\<close> replaces a \<^verbatim>\<open>NULL\<close> aggregate by 0 before formatting. When its
  three statements run, both totals are the formatter applied to a number, never to
  \<^verbatim>\<open>null\<close>; on an empty invoices table the sums are \<^verbatim>\<open>NULL\<close> and the operation
  returns 0 invoices and both totals formatted from 0. When a statement faults the
  summary is the default one, whose fields are all set.
\<close>

theorem fetchCardData_coalesces_null:
  "(fault conn CountInvoices = None \<and> fault conn CountCustomers = None \<and>
    fault conn SumTotals = None \<longrightarrow>
      (\<exists>paid pending.
         fetchCardData fmt conn =
           ([], \<lparr>numberOfInvoices = length (invoices (db conn)),
                 numberOfCustomers = length (customers (db conn)),
                 totalPaidInvoices = fmt (Some paid),
                 totalPendingInvoices = fmt (Some pending)\<rparr>)) \<and>
      (invoices (db conn) = [] \<longrightarrow>
         sum_totals (db conn) = Inr (None, None) \<and>
         fetchCardData fmt conn =
           ([], \<lparr>numberOfInvoices = 0,
                 numberOfCustomers = length (customers (db conn)),
                 totalPaidInvoices = fmt (Some 0),
                 totalPendingInvoices = fmt (Some 0)\<rparr>))) \<and>
   (fault conn CountInvoices \<noteq> None \<or> fault conn CountCustomers \<noteq> None \<or>
    fault conn SumTotals \<noteq> None \<longrightarrow>
      snd (fetchCardData fmt conn) = card_default)"
proof (intro conjI impI)
  assume h: "fault conn CountInvoices = None \<and> fault conn CountCustomers = None \<and>
    fault conn SumTotals = None"
  then show "\<exists>paid pending.
         fetchCardData fmt conn =
           ([], \<lparr>numberOfInvoices = length (invoices (db conn)),
                 numberOfCustomers = length (customers (db conn)),
                 totalPaidInvoices = fmt (Some paid),
                 totalPendingInvoices = fmt (Some pending)\<rparr>)"
    using fetchCardData_healthy[of conn fmt] by blast
  assume e: "invoices (db conn) = []"
  then show "sum_totals (db conn) = Inr (None, None)"
    by (simp add: sum_totals_def sql_sum_def)
  from h e show "fetchCardData fmt conn =
           ([], \<lparr>numberOfInvoices = 0,
                 numberOfCustomers = length (customers (db conn)),
                 totalPaidInvoices = fmt (Some 0),
                 totalPendingInvoices = fmt (Some 0)\<rparr>)"
    using fetchCardData_healthy[of conn fmt] by simp
next
  assume "fault conn CountInvoices \<noteq> None \<or> fault conn CountCustomers \<noteq> None \<or>
    fault conn SumTotals \<noteq> None"
  then have "isl (sql conn CountInvoices (count_invoices (db conn))) \<or>
    isl (sql conn CountCustomers (count_customers (db conn))) \<or>
    isl (sql conn SumTotals (sum_totals (db conn)))"
    by (auto simp: sql_def)
  from fetchCardData_rejected[OF this, of fmt]
  show "snd (fetchCardData fmt conn) = card_default" by auto
qed

text \<open>The example formatter on the specification's example, on zero and on \<^verbatim>\<open>null\<close>.\<close>

lemma formatCurrency_zero: "formatCurrency (Some 0) = [CHR 0xE2, CHR 0x82, CHR 0xB1] @ ''0.00''"
  by (simp add: formatCurrency_def nullish_def text_casts)

lemma formatCurrency_example: "formatCurrency (Some 150000) = [CHR 0xE2, CHR 0x82, CHR 0xB1] @ ''1,500.00''"
  by (simp add: formatCurrency_def nullish_def text_casts)

lemma formatCurrency_null: "formatCurrency None = formatCurrency (Some 0)"
  by (simp add: formatCurrency_def nullish_def)

theorem fetchCardData_coalesces_null_witness:
  "fault (healthy no_invoices_db) CountInvoices = None \<and>
   fault (healthy no_invoices_db) CountCustomers = None \<and>
   fault (healthy no_invoices_db) SumTotals = None \<and>
   invoices (db (healthy no_invoices_db)) = [] \<and>
   fetchCardData formatCurrency (healthy no_invoices_db) =
     ([], \<lparr>numberOfInvoices = 0, numberOfCustomers = 2,
           totalPaidInvoices = [CHR 0xE2, CHR 0x82, CHR 0xB1] @ ''0.00'',
           totalPendingInvoices = [CHR 0xE2, CHR 0x82, CHR 0xB1] @ ''0.00''\<rparr>) \<and>
   fault (unreachable no_invoices_db) SumTotals \<noteq> None \<and>
   snd (fetchCardData formatCurrency (unreachable no_invoices_db)) = card_default"
proof -
  have h: "fault (healthy no_invoices_db) CountInvoices = None"
    "fault (healthy no_invoices_db) CountCustomers = None"
    "fault (healthy no_invoices_db) SumTotals = None"
    "invoices (db (healthy no_invoices_db)) = []"
    "length (customers (db (healthy no_invoices_db))) = 2"
    by (simp_all add: healthy_def no_invoices_db_def)
  have u: "fault (unreachable no_invoices_db) SumTotals \<noteq> None"
    by (simp add: unreachable_def)
  from fetchCardData_coalesces_null[of "healthy no_invoices_db" formatCurrency] h
  have "fetchCardData formatCurrency (healthy no_invoices_db) =
     ([], \<lparr>numberOfInvoices = 0, numberOfCustomers = 2,
           totalPaidInvoices = [CHR 0xE2, CHR 0x82, CHR 0xB1] @ ''0.00'',
           totalPendingInvoices = [CHR 0xE2, CHR 0x82, CHR 0xB1] @ ''0.00''\<rparr>)"
    by (simp add: formatCurrency_zero)
  moreover from fetchCardData_coalesces_null[of "unreachable no_invoices_db" formatCurrency] u
  have "snd (fetchCardData formatCurrency (unreachable no_invoices_db)) = card_default"
    by blast
  ultimately show ?thesis using h u by blast
qed

section \<open>The customer search\<close>

lemma fst_left_join: "fst ` set (left_join d) = set (customers d)"
proof
  show "fst ` set (left_join d) \<subseteq> set (customers d)"
    by (auto simp: left_join_def Let_def split: if_splits)
  show "set (customers d) \<subseteq> fst ` set (left_join d)"
  proof
    fix c assume c: "c \<in> set (customers d)"
    let ?is = "filter (\<lambda>i. cust_id c = inv_customer_id i) (invoices d)"
    show "c \<in> fst ` set (left_join d)"
    proof (cases "?is = []")
      case True
      with c have "(c, None) \<in> set (left_join d)"
        by (auto simp: left_join_def Let_def)
      then show ?thesis by force
    next
      case False
      then obtain i where "i \<in> set ?is" by (cases ?is) auto
      with c False have "(c, Some i) \<in> set (left_join d)"
        by (auto simp: left_join_def Let_def)
      then show ?thesis by force
    qed
  qed
qed

lemma left_join_Some:
  "(c, Some i) \<in> set (left_join d) \<Longrightarrow> i \<in> set (invoices d) \<and> cust_id c = inv_customer_id i"
  by (auto simp: left_join_def Let_def split: if_splits)

lemma customer_where: "ilike_pattern (search_pattern q) = Some p \<Longrightarrow>
  filtered_customers_where p r = customer_matches q (fst r)"
  by (simp add: customer_matches_def filtered_customers_where_def)

lemma customers_statement:
  "select_filtered_customers d (search_pattern q) =
     Inr (order_by_asc cr_name (map customers_table_row (group_by fst (customer_rows d q))))"
proof -
  obtain p where p: "ilike_pattern (search_pattern q) = Some p"
    using search_pattern_parses by blast
  have "filtered_customers_where p = (\<lambda>r. customer_matches q (fst r))"
    by (rule ext) (rule customer_where[OF p])
  with p show ?thesis by (simp add: select_filtered_customers_def customer_rows_def)
qed

lemma keys_customer_rows:
  "fst ` set (customer_rows d q) = {c \<in> set (customers d). customer_matches q c}"
  using fst_left_join[of d] by (auto simp: customer_rows_def)

lemma fetchFilteredCustomers_lines:
  assumes "fault conn SelectFilteredCustomers = None"
  shows "set (snd (fetchFilteredCustomers fmt conn q)) =
           customer_line fmt (db conn) q ` {c \<in> set (customers (db conn)). customer_matches q c}"
proof -
  let ?rows = "customer_rows (db conn) q"
  have "set (snd (fetchFilteredCustomers fmt conn q)) =
      (\<lambda>k. customer_line fmt (db conn) q k) ` fst ` set ?rows"
    using assms
    by (simp add: fetchFilteredCustomers_def sql_def customers_statement order_by_asc_def
        group_by_def customers_table_row_def customer_line_def Let_def image_image)
  then show ?thesis by (simp only: keys_customer_rows)
qed

lemma shown_customer_line: "shown_customer (customer_line fmt d q c) = c"
  by (simp add: shown_customer_def customer_line_def Let_def)

lemma group_not_empty:
  assumes "c \<in> set (customers d)" and "customer_matches q c"
  shows "filter (\<lambda>r. fst r = c) (customer_rows d q) \<noteq> []"
proof -
  from assms have "c \<in> fst ` set (customer_rows d q)"
    by (simp add: keys_customer_rows)
  then obtain r where "r \<in> set (customer_rows d q)" "fst r = c" by auto
  then show ?thesis by (auto simp: filter_empty_conv)
qed

lemma group_without_invoices:
  assumes "\<forall>i \<in> set (invoices d). inv_customer_id i \<noteq> cust_id c"
    and "r \<in> set (customer_rows d q)" and "fst r = c"
  shows "snd r = None"
proof (cases "snd r")
  case None
  then show ?thesis .
next
  case (Some i)
  from assms(2) have "r \<in> set (left_join d)"
    by (simp add: customer_rows_def)
  moreover have "r = (c, Some i)"
    using assms(3) Some by (simp add: prod_eq_iff)
  ultimately have "(c, Some i) \<in> set (left_join d)" by simp
  then have "i \<in> set (invoices d) \<and> cust_id c = inv_customer_id i"
    by (rule left_join_Some)
  with assms(1) show ?thesis by auto
qed

lemma sql_sum_zeros:
  assumes "g \<noteq> []" and "\<forall>r \<in> set g. f r = 0"
  shows "sql_sum (map f g) = Some 0"
proof -
  from assms(2) have "sum_list (map f g) = 0" by (induction g) auto
  with assms(1) show ?thesis by (simp add: sql_sum_def)
qed

lemma customer_line_without_invoices:
  assumes "c \<in> set (customers d)" and "customer_matches q c"
    and "\<forall>i \<in> set (invoices d). inv_customer_id i \<noteq> cust_id c"
  shows "customer_line fmt d q c =
     \<lparr>ct_id = cust_id c, ct_name = cust_name c, ct_email = cust_email c,
      ct_image_url = cust_image_url c, ct_total_invoices = 0,
      ct_total_pending = fmt (Some 0), ct_total_paid = fmt (Some 0)\<rparr>"
proof -
  let ?g = "filter (\<lambda>r. fst r = c) (customer_rows d q)"
  have ne: "?g \<noteq> []" using assms(1,2) by (rule group_not_empty)
  have none: "snd r = None" if "r \<in> set ?g" for r
    using that group_without_invoices[OF assms(3), of r q] by simp
  have "filter (\<lambda>r. snd r \<noteq> None) ?g = []"
  proof (rule filter_False, rule ballI)
    fix r assume "r \<in> set ?g"
    then have "snd r = None" by (rule none)
    then show "\<not> snd r \<noteq> None" by simp
  qed
  moreover have "sql_sum (map (amount_if_status s) ?g) = Some 0" for s
  proof (rule sql_sum_zeros[OF ne], rule ballI)
    fix r assume "r \<in> set ?g"
    then have "snd r = None" by (rule none)
    then show "amount_if_status s r = 0" by (simp add: amount_if_status_def)
  qed
  ultimately show ?thesis
    by (simp add: customer_line_def Let_def)
qed

lemma customer_line_not_null:
  assumes "c \<in> set (customers d)" and "customer_matches q c"
  shows "\<exists>a b. ct_total_pending (customer_line fmt d q c) = fmt (Some a) \<and>
               ct_total_paid (customer_line fmt d q c) = fmt (Some b)"
  using group_not_empty[OF assms]
  by (auto simp: customer_line_def Let_def sql_sum_def)

text \<open>
  C6: the customer search is a left join. When its statement runs, every customer that
  matches the query and has no invoice is listed, and each line listed for that customer
  has \<open>total_invoices\<close> 0 and both totals formatted from the number 0. On every line
  of every result the totals are formatted from a number, never from \<^verbatim>\<open>null\<close>.
\<close>

theorem customer_without_invoices_listed:
  "(fault conn SelectFilteredCustomers = None \<and> c \<in> set (customers (db conn)) \<and>
    customer_matches q c \<and>
    (\<forall>i \<in> set (invoices (db conn)). inv_customer_id i \<noteq> cust_id c) \<longrightarrow>
      \<lparr>ct_id = cust_id c, ct_name = cust_name c, ct_email = cust_email c,
       ct_image_url = cust_image_url c, ct_total_invoices = 0,
       ct_total_pending = fmt (Some 0), ct_total_paid = fmt (Some 0)\<rparr>
        \<in> set (snd (fetchFilteredCustomers fmt conn q)) \<and>
      (\<forall>row \<in> set (snd (fetchFilteredCustomers fmt conn q)).
         shown_customer row = c \<longrightarrow>
           ct_total_invoices row = 0 \<and> ct_total_pending row = fmt (Some 0) \<and>
           ct_total_paid row = fmt (Some 0))) \<and>
   (\<forall>row \<in> set (snd (fetchFilteredCustomers fmt conn q)).
      \<exists>a b. ct_total_pending row = fmt (Some a) \<and> ct_total_paid row = fmt (Some b))"
proof (intro conjI impI ballI)
  assume h: "fault conn SelectFilteredCustomers = None \<and> c \<in> set (customers (db conn)) \<and>
    customer_matches q c \<and>
    (\<forall>i \<in> set (invoices (db conn)). inv_customer_id i \<noteq> cust_id c)"
  let ?zero = "\<lparr>ct_id = cust_id c, ct_name = cust_name c, ct_email = cust_email c,
       ct_image_url = cust_image_url c, ct_total_invoices = 0,
       ct_total_pending = fmt (Some 0), ct_total_paid = fmt (Some 0)\<rparr>"
  from h have line: "customer_line fmt (db conn) q c = ?zero"
    by (intro customer_line_without_invoices) auto
  from h have lines: "set (snd (fetchFilteredCustomers fmt conn q)) =
      customer_line fmt (db conn) q ` {c \<in> set (customers (db conn)). customer_matches q c}"
    by (intro fetchFilteredCustomers_lines) auto
  from h line show "?zero \<in> set (snd (fetchFilteredCustomers fmt conn q))"
    unfolding lines by force
  fix row
  assume "row \<in> set (snd (fetchFilteredCustomers fmt conn q))" and s: "shown_customer row = c"
  then obtain c' where "row = customer_line fmt (db conn) q c'"
    unfolding lines by auto
  with s have "row = customer_line fmt (db conn) q c"
    by (simp add: shown_customer_line)
  with line show "ct_total_invoices row = 0" "ct_total_pending row = fmt (Some 0)"
    "ct_total_paid row = fmt (Some 0)"
    by simp_all
next
  fix row
  assume row: "row \<in> set (snd (fetchFilteredCustomers fmt conn q))"
  show "\<exists>a b. ct_total_pending row = fmt (Some a) \<and> ct_total_paid row = fmt (Some b)"
  proof (cases "fault conn SelectFilteredCustomers")
    case None
    with row obtain c' where "c' \<in> set (customers (db conn))" "customer_matches q c'"
      "row = customer_line fmt (db conn) q c'"
      by (auto simp: fetchFilteredCustomers_lines)
    then show ?thesis using customer_line_not_null by blast
  next
    case (Some e)
    with row show ?thesis by (simp add: fetchFilteredCustomers_def sql_def)
  qed
qed

theorem customer_without_invoices_listed_witness:
  "fault (healthy small_db) SelectFilteredCustomers = None \<and>
   lee \<in> set (customers (db (healthy small_db))) \<and>
   customer_matches ''lee'' lee \<and>
   map inv_customer_id (invoices (db (healthy small_db))) = [''c1''] \<and>
   cust_id lee = ''c2'' \<and>
   \<lparr>ct_id = ''c2'', ct_name = ''Lee Robinson'', ct_email = ''lee@robinson.com'',
    ct_image_url = ''/customers/lee-robinson.png'', ct_total_invoices = 0,
    ct_total_pending = [CHR 0xE2, CHR 0x82, CHR 0xB1] @ ''0.00'',
    ct_total_paid = [CHR 0xE2, CHR 0x82, CHR 0xB1] @ ''0.00''\<rparr>
     \<in> set (snd (fetchFilteredCustomers formatCurrency (healthy small_db) ''lee''))"
proof -
  have h: "fault (healthy small_db) SelectFilteredCustomers = None"
    "lee \<in> set (customers (db (healthy small_db)))"
    "\<forall>i \<in> set (invoices (db (healthy small_db))). inv_customer_id i \<noteq> cust_id lee"
    by (simp_all add: example_data)
  have m: "customer_matches ''lee'' lee"
    by (simp add: customer_matches_def filtered_customers_where_def lee_def search_eval)
  from customer_without_invoices_listed[of "healthy small_db" lee "''lee''" formatCurrency] h m
  have "\<lparr>ct_id = cust_id lee, ct_name = cust_name lee, ct_email = cust_email lee,
       ct_image_url = cust_image_url lee, ct_total_invoices = 0,
       ct_total_pending = formatCurrency (Some 0), ct_total_paid = formatCurrency (Some 0)\<rparr>
        \<in> set (snd (fetchFilteredCustomers formatCurrency (healthy small_db) ''lee''))"
    by blast
  then have "\<lparr>ct_id = ''c2'', ct_name = ''Lee Robinson'', ct_email = ''lee@robinson.com'',
    ct_image_url = ''/customers/lee-robinson.png'', ct_total_invoices = 0,
    ct_total_pending = [CHR 0xE2, CHR 0x82, CHR 0xB1] @ ''0.00'',
    ct_total_paid = [CHR 0xE2, CHR 0x82, CHR 0xB1] @ ''0.00''\<rparr>
     \<in> set (snd (fetchFilteredCustomers formatCurrency (healthy small_db) ''lee''))"
    by (simp add: lee_def formatCurrency_zero)
  moreover have "map inv_customer_id (invoices (db (healthy small_db))) = [''c1'']"
    "cust_id lee = ''c2''"
    by (simp_all add: example_data)
  ultimately show ?thesis using h(1,2) m by blast
qed

lemma shown_customers:
  assumes "fault conn SelectFilteredCustomers = None"
  shows "shown_customer ` set (snd (fetchFilteredCustomers fmt conn q)) =
           {c \<in> set (customers (db conn)). customer_matches q c}"
proof -
  have "shown_customer ` customer_line fmt (db conn) q ` A = A" for A
    by (simp add: image_image shown_customer_line)
  then show ?thesis
    by (simp only: fetchFilteredCustomers_lines[OF assms])
qed

lemma customer_matches_or:
  "ilike_pattern (search_pattern q) = Some p \<Longrightarrow>
   customer_matches q c \<longleftrightarrow> ilike (cust_name c) p \<or> ilike (cust_email c) p"
  by (simp add: customer_matches_def filtered_customers_where_def)

text \<open>
  C10, as stated, makes a customer appear exactly when the query is a substring of the
  name or of the email. The query \<^verbatim>\<open>_\<close> lists Amy Burns, whose name and email contain no
  underscore: in the pattern the underscore stands for any one character.
\<close>

theorem underscore_customer_counterexample:
  "amy \<in> shown_customer ` set (snd (fetchFilteredCustomers formatCurrency (healthy small_db) ''_'')) \<and>
   \<not> ci_substring ''_'' (cust_name amy) \<and>
   \<not> ci_substring ''_'' (cust_email amy)"
proof -
  have "fault (healthy small_db) SelectFilteredCustomers = None"
    by (simp add: healthy_def)
  moreover have "customer_matches ''_'' amy"
    by (simp add: customer_matches_def filtered_customers_where_def amy_def search_eval)
  moreover have "amy \<in> set (customers (db (healthy small_db)))"
    by (simp add: healthy_def small_db_def)
  ultimately have "amy \<in> shown_customer ` set (snd (fetchFilteredCustomers formatCurrency (healthy small_db) ''_''))"
    by (simp add: shown_customers)
  moreover have "\<not> ci_substring ''_'' (cust_name amy)" "\<not> ci_substring ''_'' (cust_email amy)"
    by (simp_all add: ci_substring_def amy_def lower_def lower_char_def sublist_code)
  ultimately show ?thesis by blast
qed

text \<open>
  C10, amended: when the statement runs, the customers listed by
  \<open>fetchFilteredCustomers\<close> are exactly the stored customers whose name or email the
  pattern \<^verbatim>\<open>%query%\<close> matches under \<^verbatim>\<open>ILIKE\<close>; for a query without \<^verbatim>\<open>%\<close>,
  \<^verbatim>\<open>_\<close> and backslash these are the customers that have the query as a
  case-insensitive substring of their name or email. Two databases with the same
  customers list the same customers, whatever their invoices are.
\<close>

theorem customer_search_membership:
  "(fault conn SelectFilteredCustomers = None \<longrightarrow>
      shown_customer ` set (snd (fetchFilteredCustomers fmt conn q)) =
        {c \<in> set (customers (db conn)). customer_matches q c}) \<and>
   (fault conn SelectFilteredCustomers = None \<and> fault conn' SelectFilteredCustomers = None \<and>
    customers (db conn) = customers (db conn') \<longrightarrow>
      shown_customer ` set (snd (fetchFilteredCustomers fmt conn q)) =
      shown_customer ` set (snd (fetchFilteredCustomers fmt conn' q))) \<and>
   (\<exists>p. ilike_pattern (search_pattern q) = Some p \<and>
      (customer_matches q c \<longleftrightarrow> ilike (cust_name c) p \<or> ilike (cust_email c) p)) \<and>
   (wildcard_free q \<longrightarrow>
      (customer_matches q c \<longleftrightarrow> ci_substring q (cust_name c) \<or> ci_substring q (cust_email c)))"
proof (intro conjI impI)
  assume "fault conn SelectFilteredCustomers = None"
  then show "shown_customer ` set (snd (fetchFilteredCustomers fmt conn q)) =
        {c \<in> set (customers (db conn)). customer_matches q c}"
    by (rule shown_customers)
next
  assume "fault conn SelectFilteredCustomers = None \<and> fault conn' SelectFilteredCustomers = None \<and>
    customers (db conn) = customers (db conn')"
  then show "shown_customer ` set (snd (fetchFilteredCustomers fmt conn q)) =
      shown_customer ` set (snd (fetchFilteredCustomers fmt conn' q))"
    by (simp add: shown_customers)
next
  obtain p where p: "ilike_pattern (search_pattern q) = Some p"
    using search_pattern_parses by blast
  with customer_matches_or[OF p, of c]
  show "\<exists>p. ilike_pattern (search_pattern q) = Some p \<and>
      (customer_matches q c \<longleftrightarrow> ilike (cust_name c) p \<or> ilike (cust_email c) p)"
    by blast
next
  assume "wildcard_free q"
  then have "ilike_pattern (search_pattern q) = Some (AnySeq # map Lit (lower q) @ [AnySeq])"
    by (rule wildcard_free_pattern)
  from customer_matches_or[OF this, of c]
  show "customer_matches q c \<longleftrightarrow> ci_substring q (cust_name c) \<or> ci_substring q (cust_email c)"
    by (simp only: ilike_plain)
qed

theorem customer_search_membership_witness:
  "fault (healthy small_db) SelectFilteredCustomers = None \<and>
   fault (healthy no_invoices_db) SelectFilteredCustomers = None \<and>
   customers (db (healthy small_db)) = customers (db (healthy no_invoices_db)) \<and>
   wildcard_free ''ROBINSON'' \<and>
   ci_substring ''ROBINSON'' (cust_name lee) \<and>
   \<not> ci_substring ''ROBINSON'' (cust_name amy) \<and>
   \<not> ci_substring ''ROBINSON'' (cust_email amy) \<and>
   shown_customer ` set (snd (fetchFilteredCustomers formatCurrency (healthy small_db) ''ROBINSON'')) =
     {lee} \<and>
   shown_customer ` set (snd (fetchFilteredCustomers formatCurrency (healthy no_invoices_db) ''ROBINSON'')) =
     {lee}"
proof -
  have h: "fault (healthy small_db) SelectFilteredCustomers = None"
    "fault (healthy no_invoices_db) SelectFilteredCustomers = None"
    "customers (db (healthy small_db)) = customers (db (healthy no_invoices_db))"
    "customers (db (healthy small_db)) = [amy, lee]"
    by (simp_all add: healthy_def small_db_def no_invoices_db_def)
  have w: "wildcard_free ''ROBINSON''"
    by (simp add: wildcard_free_def)
  have s: "ci_substring ''ROBINSON'' (cust_name lee)"
    "\<not> ci_substring ''ROBINSON'' (cust_name amy)"
    "\<not> ci_substring ''ROBINSON'' (cust_email amy)"
    by (simp_all add: ci_substring_def amy_def lee_def lower_def lower_char_def sublist_code)
  note t = customer_search_membership[where q = "''ROBINSON''" and fmt = formatCurrency
      and conn = "healthy small_db" and conn' = "healthy no_invoices_db"]
  from t[of lee] w s have l: "customer_matches ''ROBINSON'' lee" by blast
  from t[of amy] w s have a: "\<not> customer_matches ''ROBINSON'' amy" by blast
  from t[of lee] h(1)
  have eq: "shown_customer ` set (snd (fetchFilteredCustomers formatCurrency (healthy small_db) ''ROBINSON'')) =
     {c \<in> set (customers (db (healthy small_db))). customer_matches ''ROBINSON'' c}"
    by blast
  have "{c \<in> set [amy, lee]. customer_matches ''ROBINSON'' c} = {lee}"
    using l a by auto
  with eq h(4)
  have 1: "shown_customer ` set (snd (fetchFilteredCustomers formatCurrency (healthy small_db) ''ROBINSON'')) =
     {lee}"
    by simp
  from t[of lee] h(1,2,3)
  have "shown_customer ` set (snd (fetchFilteredCustomers formatCurrency (healthy small_db) ''ROBINSON'')) =
      shown_customer ` set (snd (fetchFilteredCustomers formatCurrency (healthy no_invoices_db) ''ROBINSON''))"
    by blast
  with 1
  have 2: "shown_customer ` set (snd (fetchFilteredCustomers formatCurrency (healthy no_invoices_db) ''ROBINSON'')) =
     {lee}"
    by simp
  from 1 2 h(1,2,3) w s show ?thesis by blast
qed

end
